theory Spec2Isabelle
  imports Complex_Main "HOL-Library.Multiset"
begin

section \<open>Values of the runtime\<close>

text \<open>
  The development follows the second revision of \<^verbatim>\<open>src/index.js\<close> (the one with
  \<^verbatim>\<open>safeEq\<close>, \<^verbatim>\<open>toBase64Url\<close> and the \<^verbatim>\<open>auth_date\<close> check), whose reason
  codes are the ones the specification lists.

  A JavaScript string is represented by the list of its UTF-8 bytes, so that
  \<^verbatim>\<open>Buffer.from(s)\<close> is \<open>s\<close> itself and a \<^verbatim>\<open>Buffer\<close> is a \<open>string\<close> too.
  A JavaScript number is a double: a finite one is represented by the rational it denotes,
  the three others by constructors of their own. The only arithmetic the code does on
  numbers is one subtraction and one comparison, taken exactly.
\<close>

datatype jsnum = Num rat | NaN | PosInfinity | NegInfinity

datatype json =
    JNull
  | JBool bool
  | JNum jsnum
  | JStr string
  | JArr "json list"
  | JObj "(string \<times> json) list"

datatype js_error = TypeError | RangeError

text \<open>\<^verbatim>\<open>Number.isFinite\<close>.\<close>

fun isFinite :: "jsnum \<Rightarrow> bool" where
  "isFinite (Num _) = True"
| "isFinite _ = False"

text \<open>
  Truthiness of a value that may be \<^verbatim>\<open>undefined\<close> (\<open>None\<close>): \<^verbatim>\<open>!v\<close> is
  \<open>\<not> truthy v\<close>.
\<close>

fun truthy :: "json option \<Rightarrow> bool" where
  "truthy None = False"
| "truthy (Some JNull) = False"
| "truthy (Some (JBool b)) = b"
| "truthy (Some (JNum (Num q))) = (q \<noteq> 0)"
| "truthy (Some (JNum NaN)) = False"
| "truthy (Some (JNum _)) = True"
| "truthy (Some (JStr s)) = (s \<noteq> [])"
| "truthy (Some (JArr _)) = True"
| "truthy (Some (JObj _)) = True"

text \<open>
  Property access \<^verbatim>\<open>v.k\<close> for the keys the code reads (\<^verbatim>\<open>id\<close>, \<^verbatim>\<open>name\<close>,
  \<^verbatim>\<open>sets\<close>, \<^verbatim>\<open>reps\<close>, \<^verbatim>\<open>weight_kg\<close>, ...), none of which is a built-in property of
  a string, a number, a boolean or an array: on \<^verbatim>\<open>null\<close> it throws, on an object it
  looks the key up, on anything else it is \<^verbatim>\<open>undefined\<close>.
\<close>

fun get_prop :: "json \<Rightarrow> string \<Rightarrow> js_error + json option" where
  "get_prop JNull k = Inl TypeError"
| "get_prop (JObj kvs) k = Inr (map_of kvs k)"
| "get_prop _ k = Inr None"

text \<open>Optional chaining \<^verbatim>\<open>v?.k\<close> on a value that may be \<^verbatim>\<open>null\<close>.\<close>

fun get_prop_opt :: "json \<Rightarrow> string \<Rightarrow> json option" where
  "get_prop_opt (JObj kvs) k = map_of kvs k"
| "get_prop_opt _ k = None"

text \<open>
  What the code calls and the repository does not define: the built-ins of the runtime.
  They are parameters of the model.
\<close>

record platform =
  urlSearchParams :: "string \<Rightarrow> (string \<times> string) list"
    \<comment> \<open>\<^verbatim>\<open>[...new URLSearchParams(s).entries()]\<close>\<close>
  localeCompare :: "string \<Rightarrow> string \<Rightarrow> int"
    \<comment> \<open>\<^verbatim>\<open>a.localeCompare(b)\<close>: negative, zero or positive\<close>
  trim :: "string \<Rightarrow> string"
  toLowerCase :: "string \<Rightarrow> string"
  stringToNumber :: "string \<Rightarrow> jsnum"
    \<comment> \<open>\<^verbatim>\<open>Number(s)\<close> on a string\<close>
  objectToNumber :: "json \<Rightarrow> jsnum"
    \<comment> \<open>\<^verbatim>\<open>Number(v)\<close> on an array or an object\<close>
  sha256 :: "string \<Rightarrow> string"
    \<comment> \<open>\<^verbatim>\<open>crypto.createHash("sha256").update(s).digest()\<close>\<close>
  hmacSha256 :: "string \<Rightarrow> string \<Rightarrow> string"
    \<comment> \<open>\<^verbatim>\<open>crypto.createHmac("sha256", key).update(msg).digest()\<close>\<close>
  jsonParse :: "string \<Rightarrow> json option"
    \<comment> \<open>\<^verbatim>\<open>JSON.parse\<close>; \<open>None\<close> when it throws\<close>

section \<open>URLSearchParams\<close>

text \<open>\<^verbatim>\<open>params.get(k)\<close>: the value of the first entry named \<open>k\<close>, or \<^verbatim>\<open>null\<close>.\<close>

definition params_get :: "(string \<times> string) list \<Rightarrow> string \<Rightarrow> string option" where
  "params_get params k = map_of params k"

text \<open>\<^verbatim>\<open>params.delete(k)\<close>: every entry named \<open>k\<close> goes.\<close>

definition params_delete :: "(string \<times> string) list \<Rightarrow> string \<Rightarrow> (string \<times> string) list" where
  "params_delete params k = filter (\<lambda>kv. fst kv \<noteq> k) params"

section \<open>Encodings of a digest\<close>

definition hex_digit :: "nat \<Rightarrow> char" where
  "hex_digit n = ''0123456789abcdef'' ! (n mod 16)"

text \<open>\<^verbatim>\<open>buf.toString("hex")\<close>\<close>

definition toHex :: "string \<Rightarrow> string" where
  "toHex buf = concat (map (\<lambda>c. [hex_digit (of_char c div 16), hex_digit (of_char c)]) buf)"

definition b64_digit :: "nat \<Rightarrow> char" where
  "b64_digit n =
     ''ABCDEFGHIJKLMNOPQRSTUVWXYZabcdefghijklmnopqrstuvwxyz0123456789+/'' ! (n mod 64)"

text \<open>\<^verbatim>\<open>buf.toString("base64")\<close>: three bytes give four digits, the rest is padded.\<close>

fun toBase64 :: "string \<Rightarrow> string" where
  "toBase64 [] = []"
| "toBase64 [a] =
     (let n = of_char a * 65536
      in [b64_digit (n div 262144), b64_digit (n div 4096), CHR ''='', CHR ''=''])"
| "toBase64 [a, b] =
     (let n = of_char a * 65536 + of_char b * 256
      in [b64_digit (n div 262144), b64_digit (n div 4096), b64_digit (n div 64), CHR ''=''])"
| "toBase64 (a # b # c # rest) =
     (let n = of_char a * 65536 + of_char b * 256 + of_char c
      in [b64_digit (n div 262144), b64_digit (n div 4096), b64_digit (n div 64), b64_digit n]
         @ toBase64 rest)"

text \<open>\<^verbatim>\<open>s.replace(/=+$/g, "")\<close>\<close>

definition strip_padding :: "string \<Rightarrow> string" where
  "strip_padding s = rev (dropWhile (\<lambda>c. c = CHR ''='') (rev s))"

definition toBase64Url :: "string \<Rightarrow> string" where
  "toBase64Url buf =
     strip_padding
       (map (\<lambda>c. if c = CHR ''/'' then CHR ''_'' else c)
         (map (\<lambda>c. if c = CHR ''+'' then CHR ''-'' else c) (toBase64 buf)))"

section \<open>Constant-time comparison\<close>

text \<open>\<^verbatim>\<open>crypto.timingSafeEqual\<close> throws when the two buffers differ in length.\<close>

definition timingSafeEqual :: "string \<Rightarrow> string \<Rightarrow> js_error + bool" where
  "timingSafeEqual ab bb = (if length ab \<noteq> length bb then Inl RangeError else Inr (ab = bb))"

text \<open>The \<^verbatim>\<open>try\<close> of \<^verbatim>\<open>safeEq\<close> turns whatever is thrown into \<^verbatim>\<open>false\<close>.\<close>

definition safeEq :: "string \<Rightarrow> string \<Rightarrow> bool" where
  "safeEq a b =
     (let ab = a; bb = b
      in if length ab \<noteq> length bb then False
         else (case timingSafeEqual ab bb of Inl _ \<Rightarrow> False | Inr r \<Rightarrow> r))"

section \<open>The verifier\<close>

text \<open>
  \<^verbatim>\<open>pairs.sort((a, b) => a[0].localeCompare(b[0]))\<close>. The sort of the runtime is stable;
  for a comparator that is a total preorder every stable sort returns the same list, and
  the model computes it by insertion.
\<close>

fun insert_pair ::
  "(string \<Rightarrow> string \<Rightarrow> int) \<Rightarrow> string \<times> string \<Rightarrow> (string \<times> string) list \<Rightarrow> (string \<times> string) list"
where
  "insert_pair cmp x [] = [x]"
| "insert_pair cmp x (y # ys) =
     (if cmp (fst x) (fst y) \<le> 0 then x # y # ys else y # insert_pair cmp x ys)"

definition sort_pairs ::
  "(string \<Rightarrow> string \<Rightarrow> int) \<Rightarrow> (string \<times> string) list \<Rightarrow> (string \<times> string) list"
where
  "sort_pairs cmp pairs = foldr (insert_pair cmp) pairs []"

text \<open>\<^verbatim>\<open>xs.join("\n")\<close>\<close>

fun join_lines :: "string list \<Rightarrow> string" where
  "join_lines [] = []"
| "join_lines [x] = x"
| "join_lines (x # y # ys) = x @ [CHR 0x0A] @ join_lines (y # ys)"

definition dataCheckString :: "platform \<Rightarrow> (string \<times> string) list \<Rightarrow> string" where
  "dataCheckString P params =
     join_lines (map (\<lambda>kv. fst kv @ ''='' @ snd kv) (sort_pairs (localeCompare P) params))"

record debug =
  incomingPreview :: string
  computedHexPreview :: string
  computedB64Preview :: string

datatype verdict = Accepted | Refused string "debug option"

text \<open>The default of the parameter \<^verbatim>\<open>maxAgeSec\<close>.\<close>

definition defaultMaxAgeSec :: int where
  "defaultMaxAgeSec = 24 * 60 * 60"

text \<open>
  \<^verbatim>\<open>now - authDate > maxAgeSec\<close> on numbers: a comparison with \<^verbatim>\<open>NaN\<close> is false,
  and \<open>now\<close> less minus infinity is plus infinity.
\<close>

fun age_exceeds :: "int \<Rightarrow> jsnum \<Rightarrow> int \<Rightarrow> bool" where
  "age_exceeds now (Num authDate) maxAgeSec = (of_int now - authDate > of_int maxAgeSec)"
| "age_exceeds now NaN maxAgeSec = False"
| "age_exceeds now PosInfinity maxAgeSec = False"
| "age_exceeds now NegInfinity maxAgeSec = True"

text \<open>
  The \<^verbatim>\<open>auth_date\<close> check: \<open>True\<close> when the function returns \<^verbatim>\<open>auth_date_expired\<close>.
  \<open>now\<close> is \<^verbatim>\<open>Math.floor(Date.now() / 1000)\<close>.
\<close>

definition auth_date_expired :: "platform \<Rightarrow> int \<Rightarrow> (string \<times> string) list \<Rightarrow> int \<Rightarrow> bool" where
  "auth_date_expired P now params maxAgeSec =
     (case params_get params ''auth_date'' of
        None \<Rightarrow> False
      | Some authDateStr \<Rightarrow>
          if authDateStr = [] then False
          else
            let authDate = stringToNumber P authDateStr
            in isFinite authDate \<and> age_exceeds now authDate maxAgeSec)"

text \<open>
  \<^verbatim>\<open>verifyTelegramInitData(initData, botToken, maxAgeSec)\<close>. The token comes from the
  environment and may be undefined; \<open>initData\<close> is a string at both call sites.
\<close>

definition verifyTelegramInitData ::
  "platform \<Rightarrow> int \<Rightarrow> string \<Rightarrow> string option \<Rightarrow> int \<Rightarrow> verdict"
where
  "verifyTelegramInitData P now initData botToken maxAgeSec =
     (if initData = [] then Refused ''empty_initData'' None
      else if botToken = None \<or> botToken = Some [] then Refused ''empty_botToken'' None
      else
        let token = trim P (the botToken);
            params0 = urlSearchParams P initData;
            hash = params_get params0 ''hash''
        in if hash = None \<or> hash = Some [] then Refused ''no_hash'' None
           else
             let params = params_delete params0 ''hash''
             in if auth_date_expired P now params maxAgeSec
                then Refused ''auth_date_expired'' None
                else
                  let secretKey = sha256 P token;
                      hmacBuf = hmacSha256 P secretKey (dataCheckString P params);
                      computedHex = toHex hmacBuf;
                      computedB64Url = toBase64Url hmacBuf;
                      incoming = trim P (the hash);
                      incomingLower = toLowerCase P incoming;
                      ok = (safeEq computedHex incomingLower
                            \<or> safeEq computedB64Url incoming
                            \<or> safeEq computedB64Url incomingLower)
                  in if \<not> ok
                     then Refused ''hash_mismatch''
                            (Some \<lparr>incomingPreview = take 10 incoming,
                                   computedHexPreview = take 10 computedHex,
                                   computedB64Preview = take 10 computedB64Url\<rparr>)
                     else Accepted)"

definition getTelegramUserFromInitData :: "platform \<Rightarrow> string \<Rightarrow> json option" where
  "getTelegramUserFromInitData P initData =
     (case params_get (urlSearchParams P initData) ''user'' of
        None \<Rightarrow> None
      | Some userStr \<Rightarrow> if userStr = [] then None else jsonParse P userStr)"

section \<open>Responses and the gate\<close>

text \<open>
  What a handler does with \<^verbatim>\<open>res\<close>: \<open>Reject c e r\<close> is
  \<^verbatim>\<open>res.status(c).json({ error: e, reason: r })\<close> (the reason only where the code sends
  one), the three \<open>Send\<close> constructors are the \<^verbatim>\<open>res.json(...)\<close> calls of the two
  workout routes, and \<open>Threw\<close> is an exception leaving the handler.
\<close>

record workout =
  w_id :: nat
  user_id :: json
  workout_date :: json
  title :: json
  w_notes :: json

record exercise =
  e_id :: nat
  workout_id :: nat
  name :: "json option"
  position :: nat

record set_row =
  s_id :: nat
  exercise_id :: nat
  set_no :: nat
  reps :: "rat option"
  weight_kg :: "rat option"

datatype response =
    Reject nat string "string option"
  | SendNull
  | SendWorkout workout "(exercise \<times> set_row list) list"
  | SendOk nat
  | Threw js_error

text \<open>
  \<^verbatim>\<open>requireUser\<close>: \<open>Inl\<close> is the response it sends itself, \<open>Inr\<close> the value it binds
  to \<^verbatim>\<open>req.telegramId\<close> before calling \<^verbatim>\<open>next()\<close>. The header is absent (\<open>None\<close>)
  or a string.
\<close>

definition requireUser ::
  "platform \<Rightarrow> int \<Rightarrow> string option \<Rightarrow> string option \<Rightarrow> response + json"
where
  "requireUser P now botToken header =
     (if header = None \<or> header = Some []
      then Inl (Reject 401 ''x-telegram-initdata header required'' None)
      else
        let initData = the header
        in case verifyTelegramInitData P now initData botToken defaultMaxAgeSec of
             Refused reason dbg \<Rightarrow> Inl (Reject 401 ''Invalid initData'' (Some reason))
           | Accepted \<Rightarrow>
               (let tgUser = getTelegramUserFromInitData P initData;
                    uid = (case tgUser of None \<Rightarrow> None | Some u \<Rightarrow> get_prop_opt u ''id'')
                in if \<not> truthy uid then Inl (Reject 401 ''No user'' None)
                   else Inr (the uid)))"

section \<open>The store\<close>

text \<open>
  The three tables the handlers reach through the Supabase client. Every call of the client
  is one statement; it resolves to \<^verbatim>\<open>{ data, error }\<close> and does not throw. Whether a
  statement fails is the store's business, not the handler's: \<open>faults\<close> lists the outcome of
  the statements to come (\<open>Some m\<close>: the next one fails with message \<open>m\<close> and changes
  nothing; past the end of the list every statement succeeds), and \<open>journal\<close> records the
  statements issued. Generated ids are fresh numbers from \<open>next_id\<close>; the nil UUID of the
  read route is the number \<open>0\<close>.
\<close>

datatype stmt =
    Upsert_workout | Select_workout | Select_exercises | Select_sets
  | Select_old_exercises | Delete_sets | Delete_exercises | Insert_exercises | Insert_sets

record store =
  workouts :: "workout list"
  workout_exercises :: "exercise list"
  workout_sets :: "set_row list"
  next_id :: nat
  faults :: "string option list"
  journal :: "stmt list"

definition nil_uuid :: nat where
  "nil_uuid = 0"

definition issue :: "stmt \<Rightarrow> store \<Rightarrow> string option \<times> store" where
  "issue c s =
     (case faults s of
        [] \<Rightarrow> (None, s\<lparr>journal := journal s @ [c]\<rparr>)
      | f # fs \<Rightarrow> (f, s\<lparr>faults := fs, journal := journal s @ [c]\<rparr>))"

text \<open>
  \<^verbatim>\<open>from("workouts").upsert({...}, { onConflict: "user_id,workout_date" }).select(...).single()\<close>
\<close>

definition upsert_workout ::
  "json \<Rightarrow> json \<Rightarrow> json \<Rightarrow> json \<Rightarrow> store \<Rightarrow> (string + workout) \<times> store"
where
  "upsert_workout u d t n s0 =
     (case issue Upsert_workout s0 of
        (Some m, s) \<Rightarrow> (Inl m, s)
      | (None, s) \<Rightarrow>
          (case filter (\<lambda>w. user_id w = u \<and> workout_date w = d) (workouts s) of
             [] \<Rightarrow>
               (let w = \<lparr>w_id = next_id s, user_id = u, workout_date = d, title = t, w_notes = n\<rparr>
                in (Inr w, s\<lparr>workouts := workouts s @ [w], next_id := Suc (next_id s)\<rparr>))
           | w # _ \<Rightarrow>
               (Inr (w\<lparr>title := t, w_notes := n\<rparr>),
                s\<lparr>workouts :=
                    map (\<lambda>x. if user_id x = u \<and> workout_date x = d
                              then x\<lparr>title := t, w_notes := n\<rparr> else x)
                      (workouts s)\<rparr>)))"

text \<open>
  \<^verbatim>\<open>from("workouts").select(...).eq("user_id", u).eq("workout_date", d).maybeSingle()\<close>:
  no row is \<^verbatim>\<open>data: null\<close> without an error, several rows are an error.
\<close>

definition select_workout :: "json \<Rightarrow> json \<Rightarrow> store \<Rightarrow> (string + workout option) \<times> store" where
  "select_workout u d s0 =
     (case issue Select_workout s0 of
        (Some m, s) \<Rightarrow> (Inl m, s)
      | (None, s) \<Rightarrow>
          (case filter (\<lambda>w. user_id w = u \<and> workout_date w = d) (workouts s) of
             [] \<Rightarrow> (Inr None, s)
           | [w] \<Rightarrow> (Inr (Some w), s)
           | _ \<Rightarrow> (Inl ''JSON object requested, multiple (or no) rows returned'', s)))"

text \<open>\<^verbatim>\<open>from("workout_exercises").select(...).eq("workout_id", wid).order("position")\<close>\<close>

definition select_exercises :: "nat \<Rightarrow> store \<Rightarrow> (string + exercise list) \<times> store" where
  "select_exercises wid s0 =
     (case issue Select_exercises s0 of
        (Some m, s) \<Rightarrow> (Inl m, s)
      | (None, s) \<Rightarrow>
          (Inr (sort_key position (filter (\<lambda>e. workout_id e = wid) (workout_exercises s))), s))"

text \<open>\<^verbatim>\<open>from("workout_sets").select(...).in("exercise_id", ids).order("set_no")\<close>\<close>

definition select_sets :: "nat list \<Rightarrow> store \<Rightarrow> (string + set_row list) \<times> store" where
  "select_sets ids s0 =
     (case issue Select_sets s0 of
        (Some m, s) \<Rightarrow> (Inl m, s)
      | (None, s) \<Rightarrow>
          (Inr (sort_key set_no (filter (\<lambda>r. exercise_id r \<in> set ids) (workout_sets s))), s))"

text \<open>\<^verbatim>\<open>from("workout_exercises").select("id").eq("workout_id", wid)\<close>\<close>

definition select_old_exercises :: "nat \<Rightarrow> store \<Rightarrow> (string + nat list) \<times> store" where
  "select_old_exercises wid s0 =
     (case issue Select_old_exercises s0 of
        (Some m, s) \<Rightarrow> (Inl m, s)
      | (None, s) \<Rightarrow>
          (Inr (map e_id (filter (\<lambda>e. workout_id e = wid) (workout_exercises s))), s))"

text \<open>\<^verbatim>\<open>from("workout_sets").delete().in("exercise_id", ids)\<close>\<close>

definition delete_sets :: "nat list \<Rightarrow> store \<Rightarrow> (string + unit) \<times> store" where
  "delete_sets ids s0 =
     (case issue Delete_sets s0 of
        (Some m, s) \<Rightarrow> (Inl m, s)
      | (None, s) \<Rightarrow>
          (Inr (), s\<lparr>workout_sets := filter (\<lambda>r. exercise_id r \<notin> set ids) (workout_sets s)\<rparr>))"

text \<open>\<^verbatim>\<open>from("workout_exercises").delete().eq("workout_id", wid)\<close>\<close>

definition delete_exercises :: "nat \<Rightarrow> store \<Rightarrow> (string + unit) \<times> store" where
  "delete_exercises wid s0 =
     (case issue Delete_exercises s0 of
        (Some m, s) \<Rightarrow> (Inl m, s)
      | (None, s) \<Rightarrow>
          (Inr (),
           s\<lparr>workout_exercises := filter (\<lambda>e. workout_id e \<noteq> wid) (workout_exercises s)\<rparr>))"

text \<open>
  \<^verbatim>\<open>from("workout_exercises").insert(exRows).select("id,name,position")\<close>: the rows get
  consecutive fresh ids in the order given and come back in that order.
\<close>

definition number_from :: "nat \<Rightarrow> 'a list \<Rightarrow> (nat \<times> 'a) list" where
  "number_from n xs = zip [n ..< n + length xs] xs"

definition insert_exercises ::
  "(nat \<times> json option \<times> nat) list \<Rightarrow> store \<Rightarrow> (string + exercise list) \<times> store"
where
  "insert_exercises exRows s0 =
     (case issue Insert_exercises s0 of
        (Some m, s) \<Rightarrow> (Inl m, s)
      | (None, s) \<Rightarrow>
          (let inserted =
                 map (\<lambda>(i, (wid, nm, pos)).
                        \<lparr>e_id = i, workout_id = wid, name = nm, position = pos\<rparr>)
                   (number_from (next_id s) exRows)
           in (Inr inserted,
               s\<lparr>workout_exercises := workout_exercises s @ inserted,
                 next_id := next_id s + length exRows\<rparr>)))"

text \<open>
  \<^verbatim>\<open>from("workout_sets").insert(setRows)\<close>. The client sends the rows as JSON text
  (\<^verbatim>\<open>JSON.stringify\<close>), in which a number that is not finite (\<^verbatim>\<open>NaN\<close>,
  \<^verbatim>\<open>Infinity\<close>, \<^verbatim>\<open>-Infinity\<close>) is written \<^verbatim>\<open>null\<close>: the columns \<^verbatim>\<open>reps\<close> and
  \<^verbatim>\<open>weight_kg\<close> of a row receive a number or \<^verbatim>\<open>null\<close> (\<open>None\<close>).
\<close>

fun stringify_number :: "jsnum \<Rightarrow> rat option" where
  "stringify_number (Num q) = Some q"
| "stringify_number n = None"

definition insert_sets ::
  "(nat \<times> nat \<times> jsnum \<times> jsnum) list \<Rightarrow> store \<Rightarrow> (string + unit) \<times> store"
where
  "insert_sets setRows s0 =
     (case issue Insert_sets s0 of
        (Some m, s) \<Rightarrow> (Inl m, s)
      | (None, s) \<Rightarrow>
          (let inserted =
                 map (\<lambda>(i, (ex, no, r, w)).
                        \<lparr>s_id = i, exercise_id = ex, set_no = no,
                         reps = stringify_number r, weight_kg = stringify_number w\<rparr>)
                   (number_from (next_id s) setRows)
           in (Inr (),
               s\<lparr>workout_sets := workout_sets s @ inserted,
                 next_id := next_id s + length setRows\<rparr>)))"

section \<open>The read route\<close>

text \<open>
  The loop that fills the \<^verbatim>\<open>Map\<close> \<^verbatim>\<open>byExercise\<close>: each set row is pushed onto the array
  kept under its \<^verbatim>\<open>exercise_id\<close>.
\<close>

definition group_sets :: "set_row list \<Rightarrow> (nat \<rightharpoonup> set_row list)" where
  "group_sets rows =
     foldl (\<lambda>m r. m(exercise_id r \<mapsto> (case m (exercise_id r) of None \<Rightarrow> [] | Some arr \<Rightarrow> arr) @ [r]))
       Map.empty rows"

text \<open>
  The handler of \<^verbatim>\<open>GET /api/workouts\<close>, after \<^verbatim>\<open>requireUser\<close> has bound
  \<open>telegramId\<close>; \<open>date\<close> is \<^verbatim>\<open>req.query.date\<close>.
\<close>

definition getWorkouts :: "json \<Rightarrow> string option \<Rightarrow> store \<Rightarrow> response \<times> store" where
  "getWorkouts telegramId date s0 =
     (if date = None \<or> date = Some [] then (Reject 400 ''date=YYYY-MM-DD required'' None, s0)
      else
        case select_workout telegramId (JStr (the date)) s0 of
          (Inl m, s1) \<Rightarrow> (Reject 500 m None, s1)
        | (Inr None, s1) \<Rightarrow> (SendNull, s1)
        | (Inr (Some w), s1) \<Rightarrow>
            (case select_exercises (w_id w) s1 of
               (Inl m, s2) \<Rightarrow> (Reject 500 m None, s2)
             | (Inr ex, s2) \<Rightarrow>
                 (let exIds = map e_id ex
                  in case select_sets (if exIds \<noteq> [] then exIds else [nil_uuid]) s2 of
                       (Inl m, s3) \<Rightarrow> (Reject 500 m None, s3)
                     | (Inr rows, s3) \<Rightarrow>
                         (let byExercise = group_sets rows
                          in (SendWorkout w
                                (map (\<lambda>e. (e, case byExercise (e_id e) of
                                                 None \<Rightarrow> [] | Some arr \<Rightarrow> arr)) ex),
                              s3)))))"

section \<open>The replace route\<close>

text \<open>\<^verbatim>\<open>v ?? d\<close>\<close>

definition nullish_or :: "json option \<Rightarrow> json \<Rightarrow> json" where
  "nullish_or v d = (case v of None \<Rightarrow> d | Some JNull \<Rightarrow> d | Some x \<Rightarrow> x)"

text \<open>\<^verbatim>\<open>Number(v)\<close>\<close>

fun toNumber :: "platform \<Rightarrow> json \<Rightarrow> jsnum" where
  "toNumber P JNull = Num 0"
| "toNumber P (JBool b) = Num (if b then 1 else 0)"
| "toNumber P (JNum n) = n"
| "toNumber P (JStr s) = stringToNumber P s"
| "toNumber P v = objectToNumber P v"

text \<open>
  \<^verbatim>\<open>exercises.map((e, idx) => ({ workout_id: w.id, name: e.name, position: idx + 1 }))\<close>,
  from index \<open>idx\<close> on.
\<close>

fun exRows_from :: "nat \<Rightarrow> nat \<Rightarrow> json list \<Rightarrow> js_error + (nat \<times> json option \<times> nat) list" where
  "exRows_from wid idx [] = Inr []"
| "exRows_from wid idx (e # es) =
     (case get_prop e ''name'' of
        Inl err \<Rightarrow> Inl err
      | Inr nm \<Rightarrow>
          (case exRows_from wid (Suc idx) es of
             Inl err \<Rightarrow> Inl err
           | Inr rows \<Rightarrow> Inr ((wid, nm, idx + 1) # rows)))"

text \<open>The \<^verbatim>\<open>setsArr.forEach((s, idx) => setRows.push({...}))\<close> of one exercise.\<close>

fun setRows_from ::
  "platform \<Rightarrow> nat \<Rightarrow> nat \<Rightarrow> json list \<Rightarrow> js_error + (nat \<times> nat \<times> jsnum \<times> jsnum) list"
where
  "setRows_from P exId idx [] = Inr []"
| "setRows_from P exId idx (s # ss) =
     (case get_prop s ''reps'' of
        Inl err \<Rightarrow> Inl err
      | Inr r \<Rightarrow>
          (case get_prop s ''weight_kg'' of
             Inl err \<Rightarrow> Inl err
           | Inr w \<Rightarrow>
               (case setRows_from P exId (Suc idx) ss of
                  Inl err \<Rightarrow> Inl err
                | Inr rows \<Rightarrow>
                    Inr ((exId, idx + 1,
                          toNumber P (nullish_or r (JNum (Num 0))),
                          toNumber P (nullish_or w (JNum (Num 0)))) # rows))))"

text \<open>
  The loop over \<^verbatim>\<open>exercises\<close> that builds \<^verbatim>\<open>setRows\<close>; \<^verbatim>\<open>insertedEx[i]\<close> past the
  end of the array is \<^verbatim>\<open>undefined\<close>, whose \<^verbatim>\<open>id\<close> throws.
\<close>

fun setRows_of ::
  "platform \<Rightarrow> json list \<Rightarrow> exercise list \<Rightarrow> js_error + (nat \<times> nat \<times> jsnum \<times> jsnum) list"
where
  "setRows_of P [] insertedEx = Inr []"
| "setRows_of P (ex # exs) [] = Inl TypeError"
| "setRows_of P (ex # exs) (ins # inss) =
     (case get_prop ex ''sets'' of
        Inl err \<Rightarrow> Inl err
      | Inr v \<Rightarrow>
          (let setsArr = (case v of Some (JArr a) \<Rightarrow> a | _ \<Rightarrow> [])
           in case setRows_from P (e_id ins) 0 setsArr of
                Inl err \<Rightarrow> Inl err
              | Inr rows \<Rightarrow>
                  (case setRows_of P exs inss of
                     Inl err \<Rightarrow> Inl err
                   | Inr rest \<Rightarrow> Inr (rows @ rest))))"

text \<open>
  The handler of \<^verbatim>\<open>POST /api/workouts\<close>, after \<^verbatim>\<open>requireUser\<close>. The results of the
  second, third and fourth statement are not inspected: of the second only \<^verbatim>\<open>data\<close> is
  read (\<^verbatim>\<open>null\<close> on failure, hence no old ids), the two deletes are awaited and dropped.
\<close>

definition postWorkouts :: "platform \<Rightarrow> json \<Rightarrow> json \<Rightarrow> store \<Rightarrow> response \<times> store" where
  "postWorkouts P telegramId body s0 =
     (case get_prop body ''workout_date'' of
        Inl err \<Rightarrow> (Threw err, s0)
      | Inr wdate \<Rightarrow>
          if \<not> truthy wdate then (Reject 400 ''workout_date required'' None, s0)
          else
            (case get_prop_opt body ''exercises'' of
               Some (JArr exercises) \<Rightarrow>
                 (case upsert_workout telegramId (the wdate)
                         (nullish_or (get_prop_opt body ''title'') JNull)
                         (nullish_or (get_prop_opt body ''notes'') JNull) s0 of
                    (Inl m, s1) \<Rightarrow> (Reject 500 m None, s1)
                  | (Inr w, s1) \<Rightarrow>
                      (let (oldEx, s2) = select_old_exercises (w_id w) s1;
                           oldIds = (case oldEx of Inl _ \<Rightarrow> [] | Inr ids \<Rightarrow> ids);
                           s3 = (if oldIds \<noteq> [] then snd (delete_sets oldIds s2) else s2);
                           s4 = snd (delete_exercises (w_id w) s3)
                       in case exRows_from (w_id w) 0 exercises of
                            Inl err \<Rightarrow> (Threw err, s4)
                          | Inr exRows \<Rightarrow>
                              (case insert_exercises exRows s4 of
                                 (Inl m, s5) \<Rightarrow> (Reject 500 m None, s5)
                               | (Inr insertedEx, s5) \<Rightarrow>
                                   (case setRows_of P exercises insertedEx of
                                      Inl err \<Rightarrow> (Threw err, s5)
                                    | Inr setRows \<Rightarrow>
                                        if setRows \<noteq> []
                                        then (case insert_sets setRows s5 of
                                                (Inl m, s6) \<Rightarrow> (Reject 500 m None, s6)
                                              | (Inr _, s6) \<Rightarrow> (SendOk (w_id w), s6))
                                        else (SendOk (w_id w), s5)))))
             | _ \<Rightarrow> (Reject 400 ''exercises[] required'' None, s0)))"

section \<open>The two routes behind the gate\<close>

record request =
  initdata_header :: "string option"
  query_date :: "string option"
  req_body :: json

definition route_get_workouts ::
  "platform \<Rightarrow> int \<Rightarrow> string option \<Rightarrow> request \<Rightarrow> store \<Rightarrow> response \<times> store"
where
  "route_get_workouts P now botToken req s =
     (case requireUser P now botToken (initdata_header req) of
        Inl r \<Rightarrow> (r, s)
      | Inr telegramId \<Rightarrow> getWorkouts telegramId (query_date req) s)"

definition route_post_workouts ::
  "platform \<Rightarrow> int \<Rightarrow> string option \<Rightarrow> request \<Rightarrow> store \<Rightarrow> response \<times> store"
where
  "route_post_workouts P now botToken req s =
     (case requireUser P now botToken (initdata_header req) of
        Inl r \<Rightarrow> (r, s)
      | Inr telegramId \<Rightarrow> postWorkouts P telegramId (req_body req) s)"

section \<open>A runtime for the examples\<close>

text \<open>
  The theorems below hold for every \<open>platform\<close>. The closed examples need one to compute
  with. \<open>example_platform\<close> agrees with the runtime on the inputs the examples use: query
  strings without percent escapes or plus signs, keys made of lower-case letters and
  underscores (on which the collation order is the byte order), ASCII white space and
  letters, numbers written as decimal digits, and the user objects listed in
  \<open>example_jsonParse\<close>. The two digest functions are tables: the SHA-256 of the token
  of the examples and the HMAC-SHA-256 of their canonical messages under that key, as the
  runtime computes them; elsewhere they are 32 zero bytes.
\<close>

fun split_on :: "char \<Rightarrow> string \<Rightarrow> string list" where
  "split_on sep [] = [[]]"
| "split_on sep (c # cs) =
     (if c = sep then [] # split_on sep cs
      else (case split_on sep cs of [] \<Rightarrow> [[c]] | seg # segs \<Rightarrow> (c # seg) # segs))"

definition example_urlSearchParams :: "string \<Rightarrow> (string \<times> string) list" where
  "example_urlSearchParams s =
     map (\<lambda>seg. (takeWhile (\<lambda>c. c \<noteq> CHR ''='') seg, drop 1 (dropWhile (\<lambda>c. c \<noteq> CHR ''='') seg)))
       (filter (\<lambda>seg. seg \<noteq> []) (split_on (CHR ''&'') s))"

fun example_localeCompare :: "string \<Rightarrow> string \<Rightarrow> int" where
  "example_localeCompare [] [] = 0"
| "example_localeCompare [] (b # bs) = -1"
| "example_localeCompare (a # as) [] = 1"
| "example_localeCompare (a # as) (b # bs) =
     (if (of_char a :: nat) < of_char b then -1
      else if (of_char b :: nat) < of_char a then 1
      else example_localeCompare as bs)"

definition is_space :: "char \<Rightarrow> bool" where
  "is_space c = (c \<in> set [CHR '' '', CHR 0x09, CHR 0x0A, CHR 0x0B, CHR 0x0C, CHR 0x0D])"

definition example_trim :: "string \<Rightarrow> string" where
  "example_trim s = rev (dropWhile is_space (rev (dropWhile is_space s)))"

definition example_toLowerCase :: "string \<Rightarrow> string" where
  "example_toLowerCase s =
     map (\<lambda>c. case map_of (zip ''ABCDEFGHIJKLMNOPQRSTUVWXYZ'' ''abcdefghijklmnopqrstuvwxyz'') c of
                None \<Rightarrow> c | Some l \<Rightarrow> l) s"

definition is_digit :: "char \<Rightarrow> bool" where
  "is_digit c = ((48::nat) \<le> of_char c \<and> (of_char c :: nat) \<le> 57)"

definition example_stringToNumber :: "string \<Rightarrow> jsnum" where
  "example_stringToNumber s =
     (if s \<noteq> [] \<and> list_all is_digit s
      then Num (of_nat (foldl (\<lambda>n c. 10 * n + (of_char c - 48)) 0 s))
      else NaN)"

definition example_user :: string where
  "example_user = ''{'' @ [CHR 0x22] @ ''id'' @ [CHR 0x22] @ '':42}''"

text \<open>The SHA-256 of \<^verbatim>\<open>tok\<close>.\<close>

definition example_key :: string where
  "example_key =
     map char_of [26, 118, 116, 235, 78, 231, 141, 247, 225, 172, 67, 154, 147, 195,
     250, 142, 60, 148, 87, 132, 212, 222, 201, 253, 142, 48, 17, 115, 139, 47, 29, 98
     :: nat]"

definition example_sha256 :: "string \<Rightarrow> string" where
  "example_sha256 m = (if m = ''tok'' then example_key else replicate 32 (CHR 0x00))"

text \<open>
  The HMAC-SHA-256 under that key of the empty message, of \<^verbatim>\<open>auth_date=100\<close>, of
  \<^verbatim>\<open>auth_date=abc\<close> and of \<^verbatim>\<open>auth_date=100\<close> followed by a newline and the user field.
\<close>

definition example_hmacSha256 :: "string \<Rightarrow> string \<Rightarrow> string" where
  "example_hmacSha256 key msg =
     (if key \<noteq> example_key then replicate 32 (CHR 0x00)
      else if msg = [] then
        map char_of [150, 193, 157, 19, 2, 77, 119, 136, 199, 197, 210, 41, 171, 216,
        124, 203, 234, 233, 187, 201, 5, 217, 102, 41, 140, 166, 126, 3, 75, 24, 22, 15
        :: nat]
      else if msg = ''auth_date=100'' then
        map char_of [51, 206, 233, 158, 30, 216, 125, 227, 182, 205, 162, 27, 93, 101,
        40, 1, 138, 113, 59, 56, 110, 16, 119, 134, 68, 173, 53, 123, 95, 219, 198, 212
        :: nat]
      else if msg = ''auth_date=abc'' then
        map char_of [24, 45, 249, 73, 45, 115, 109, 84, 36, 158, 249, 253, 88, 172, 205,
        60, 192, 32, 176, 124, 92, 28, 200, 2, 5, 40, 134, 113, 59, 116, 81, 202 :: nat]
      else if msg = ''auth_date=100'' @ [CHR 0x0A] @ ''user='' @ example_user then
        map char_of [58, 24, 79, 201, 196, 142, 22, 221, 194, 145, 129, 65, 247, 183,
        155, 235, 235, 88, 47, 55, 212, 88, 94, 206, 146, 169, 215, 18, 48, 242, 113,
        255 :: nat]
      else replicate 32 (CHR 0x00))"

definition example_jsonParse :: "string \<Rightarrow> json option" where
  "example_jsonParse s =
     (if s = example_user then Some (JObj [(''id'', JNum (Num 42))])
      else if s = ''{}'' then Some (JObj [])
      else if s = ''null'' then Some JNull
      else None)"

definition example_platform :: platform where
  "example_platform =
     \<lparr>urlSearchParams = example_urlSearchParams,
      localeCompare = example_localeCompare,
      trim = example_trim,
      toLowerCase = example_toLowerCase,
      stringToNumber = example_stringToNumber,
      objectToNumber = (\<lambda>v. NaN),
      sha256 = example_sha256,
      hmacSha256 = example_hmacSha256,
      jsonParse = example_jsonParse\<rparr>"

section \<open>Vocabulary of the properties\<close>

text \<open>
  The digest the verifier computes from the token and the fields left once \<^verbatim>\<open>hash\<close> is
  deleted, and the three comparisons it makes with the incoming hash.
\<close>

definition computed_mac :: "platform \<Rightarrow> string \<Rightarrow> (string \<times> string) list \<Rightarrow> string" where
  "computed_mac P tok params0 =
     hmacSha256 P (sha256 P (trim P tok)) (dataCheckString P (params_delete params0 ''hash''))"

definition hash_ok :: "platform \<Rightarrow> string \<Rightarrow> string \<Rightarrow> bool" where
  "hash_ok P mac hash \<longleftrightarrow>
     toLowerCase P (trim P hash) = toHex mac
     \<or> trim P hash = toBase64Url mac
     \<or> toLowerCase P (trim P hash) = toBase64Url mac"

text \<open>
  A comparator orders a set of keys strictly when, on that set, it is total, transitive and
  returns zero for equal keys only.
\<close>

definition strict_order_on :: "(string \<Rightarrow> string \<Rightarrow> int) \<Rightarrow> string set \<Rightarrow> bool" where
  "strict_order_on cmp K \<longleftrightarrow>
     (\<forall>a\<in>K. \<forall>b\<in>K. (cmp a b \<le> 0 \<or> cmp b a \<le> 0) \<and> (cmp a b \<le> 0 \<and> cmp b a \<le> 0 \<longrightarrow> a = b))
     \<and> (\<forall>a\<in>K. \<forall>b\<in>K. \<forall>c\<in>K. cmp a b \<le> 0 \<and> cmp b c \<le> 0 \<longrightarrow> cmp a c \<le> 0)"

abbreviation key_le :: "(string \<Rightarrow> string \<Rightarrow> int) \<Rightarrow> string \<times> string \<Rightarrow> string \<times> string \<Rightarrow> bool" where
  "key_le cmp \<equiv> (\<lambda>a b. cmp (fst a) (fst b) \<le> 0)"

text \<open>A payload of the examples: a signed query string that carries the user object.\<close>

definition example_signed_user :: string where
  "example_signed_user =
     ''auth_date=100&user='' @ example_user
       @ ''&hash=3a184fc9c48e16ddc2918141f7b79bebeb582f37d4585ece92a9d71230f271ff''"

section \<open>Vocabulary of the properties of the store\<close>

text \<open>\<^verbatim>\<open>Number(v ?? 0)\<close> on a property that may be missing.\<close>

definition coerce :: "platform \<Rightarrow> json option \<Rightarrow> jsnum" where
  "coerce P v = toNumber P (nullish_or v (JNum (Num 0)))"





text \<open>
  The invariant of the store: the nil UUID is never generated, generated ids are below the
  counter, no id is given twice within a table, and no set row refers to the nil UUID or to
  an id not yet generated.
\<close>

definition wf_store :: "store \<Rightarrow> bool" where
  "wf_store s \<longleftrightarrow>
     0 < next_id s
     \<and> (\<forall>w \<in> set (workouts s). 0 < w_id w \<and> w_id w < next_id s)
     \<and> (\<forall>e \<in> set (workout_exercises s). 0 < e_id e \<and> e_id e < next_id s)
     \<and> (\<forall>r \<in> set (workout_sets s). 0 < exercise_id r \<and> exercise_id r < next_id s)
     \<and> distinct (map w_id (workouts s))
     \<and> distinct (map e_id (workout_exercises s))"


definition mk_exercise :: "nat \<times> nat \<times> json option \<times> nat \<Rightarrow> exercise" where
  "mk_exercise = (\<lambda>(i, (wid, nm, pos)). \<lparr>e_id = i, workout_id = wid, name = nm, position = pos\<rparr>)"

definition mk_set :: "nat \<times> nat \<times> nat \<times> jsnum \<times> jsnum \<Rightarrow> set_row" where
  "mk_set = (\<lambda>(i, (ex, no, r, w)).
               \<lparr>s_id = i, exercise_id = ex, set_no = no,
                reps = stringify_number r, weight_kg = stringify_number w\<rparr>)"


text \<open>
  A store for the examples: user 42 has one workout on 2024-01-01, with one exercise and one
  set; and a request body that replaces it by one exercise with one set.
\<close>

definition example_store :: store where
  "example_store =
     \<lparr>workouts = [\<lparr>w_id = 1, user_id = JNum (Num 42), workout_date = JStr ''2024-01-01'',
                    title = JNull, w_notes = JNull\<rparr>],
      workout_exercises = [\<lparr>e_id = 2, workout_id = 1, name = Some (JStr ''Bench''), position = 1\<rparr>],
      workout_sets = [\<lparr>s_id = 3, exercise_id = 2, set_no = 1, reps = Some 5, weight_kg = Some 100\<rparr>],
      next_id = 4, faults = [], journal = []\<rparr>"

definition example_body :: json where
  "example_body =
     JObj [(''workout_date'', JStr ''2024-01-01''),
           (''exercises'',
            JArr [JObj [(''name'', JStr ''Squat''),
                        (''sets'', JArr [JObj [(''reps'', JNum (Num 3)),
                                               (''weight_kg'', JNum (Num 140))]])]])]"










text \<open>The ids of the workouts of a user.\<close>

definition own_workout_ids :: "store \<Rightarrow> json \<Rightarrow> nat set" where
  "own_workout_ids s uid = set (map w_id (filter (\<lambda>w. user_id w = uid) (workouts s)))"

text \<open>The ids of the exercises, before or after a request, of the workouts \<open>W\<close>.\<close>

definition exercise_ids_of :: "nat set \<Rightarrow> store \<Rightarrow> store \<Rightarrow> nat set" where
  "exercise_ids_of W s s' =
     set (map e_id (filter (\<lambda>e. workout_id e \<in> W) (workout_exercises s @ workout_exercises s')))"

text \<open>
  A store shared by two users, 42 and 7, each with a workout on 2024-01-01, and the request
  by which user 42 replaces and reads their own.
\<close>

definition example_shared_store :: store where
  "example_shared_store =
     \<lparr>workouts = [\<lparr>w_id = 1, user_id = JNum (Num 42), workout_date = JStr ''2024-01-01'',
                    title = JNull, w_notes = JNull\<rparr>,
                  \<lparr>w_id = 4, user_id = JNum (Num 7), workout_date = JStr ''2024-01-01'',
                    title = JNull, w_notes = JNull\<rparr>],
      workout_exercises = [\<lparr>e_id = 2, workout_id = 1, name = Some (JStr ''Bench''), position = 1\<rparr>,
                           \<lparr>e_id = 5, workout_id = 4, name = Some (JStr ''Row''), position = 1\<rparr>],
      workout_sets = [\<lparr>s_id = 3, exercise_id = 2, set_no = 1, reps = Some 5, weight_kg = Some 100\<rparr>,
                      \<lparr>s_id = 6, exercise_id = 5, set_no = 1, reps = Some 8, weight_kg = Some 60\<rparr>],
      next_id = 7, faults = [], journal = []\<rparr>"

definition example_request :: request where
  "example_request =
     \<lparr>initdata_header = Some example_signed_user, query_date = Some ''2024-01-01'',
      req_body = example_body\<rparr>"

section \<open>Lemmas about the verifier\<close>

lemma safeEq_iff: "safeEq a b \<longleftrightarrow> a = b"
  by (auto simp: safeEq_def timingSafeEqual_def)

lemma params_get_delete:
  "k' \<noteq> k \<Longrightarrow> params_get (params_delete ps k) k' = params_get ps k'"
  by (induction ps) (auto simp: params_get_def params_delete_def)

lemma verify_cases:
  assumes "initData \<noteq> []" "botToken = Some tok" "tok \<noteq> []"
    and "params_get (urlSearchParams P initData) ''hash'' = Some hash" "hash \<noteq> []"
  shows "verifyTelegramInitData P now initData botToken maxAgeSec =
     (let params0 = urlSearchParams P initData; mac = computed_mac P tok params0
      in if auth_date_expired P now (params_delete params0 ''hash'') maxAgeSec
         then Refused ''auth_date_expired'' None
         else if hash_ok P mac hash then Accepted
         else Refused ''hash_mismatch''
                (Some \<lparr>incomingPreview = take 10 (trim P hash),
                       computedHexPreview = take 10 (toHex mac),
                       computedB64Preview = take 10 (toBase64Url mac)\<rparr>))"
  using assms
  by (auto simp: verifyTelegramInitData_def Let_def safeEq_iff computed_mac_def hash_ok_def)

lemma truthy_Some: "truthy v \<Longrightarrow> v = Some (the v)"
  by (cases v) auto

subsection \<open>The stable sort returns one list for every order of the input\<close>

lemma set_insert_pair [simp]: "set (insert_pair cmp x ys) = insert x (set ys)"
  by (induction ys) auto

lemma mset_insert_pair [simp]: "mset (insert_pair cmp x ys) = add_mset x (mset ys)"
  by (induction ys) auto

lemma mset_sort_pairs [simp]: "mset (sort_pairs cmp ps) = mset ps"
  by (induction ps) (auto simp: sort_pairs_def)

lemma set_sort_pairs [simp]: "set (sort_pairs cmp ps) = set ps"
  by (metis mset_sort_pairs set_mset_mset)

lemma sorted_insert_pair:
  assumes "strict_order_on cmp K" "fst x \<in> K" "fst ` set ys \<subseteq> K" "sorted_wrt (key_le cmp) ys"
  shows "sorted_wrt (key_le cmp) (insert_pair cmp x ys)"
  using assms(2-)
proof (induction ys)
  case Nil
  then show ?case by simp
next
  case (Cons y ys)
  show ?case
  proof (cases "cmp (fst x) (fst y) \<le> 0")
    case True
    have "cmp (fst x) (fst z) \<le> 0" if "z \<in> set ys" for z
    proof -
      have "cmp (fst y) (fst z) \<le> 0" using Cons.prems that by auto
      moreover have "fst z \<in> K" "fst y \<in> K" using Cons.prems that by auto
      ultimately show ?thesis using True assms(1) Cons.prems(1)
        unfolding strict_order_on_def by blast
    qed
    with True Cons.prems show ?thesis by auto
  next
    case False
    have "fst y \<in> K" using Cons.prems by auto
    with False assms(1) Cons.prems(1) have "cmp (fst y) (fst x) \<le> 0"
      unfolding strict_order_on_def by blast
    moreover have "sorted_wrt (key_le cmp) (insert_pair cmp x ys)"
      using Cons by auto
    ultimately show ?thesis using False Cons.prems by auto
  qed
qed

lemma sorted_sort_pairs:
  assumes "strict_order_on cmp K" "fst ` set ps \<subseteq> K"
  shows "sorted_wrt (key_le cmp) (sort_pairs cmp ps)"
  using assms(2)
proof (induction ps)
  case Nil
  then show ?case by (simp add: sort_pairs_def)
next
  case (Cons p ps)
  have "sorted_wrt (key_le cmp) (insert_pair cmp p (sort_pairs cmp ps))"
  proof (rule sorted_insert_pair [OF assms(1)])
    show "fst p \<in> K" using Cons.prems by simp
    show "fst ` set (sort_pairs cmp ps) \<subseteq> K" using Cons.prems by simp
    show "sorted_wrt (key_le cmp) (sort_pairs cmp ps)" using Cons by simp
  qed
  then show ?case by (simp add: sort_pairs_def)
qed

lemma sorted_unique:
  assumes "sorted_wrt R xs" "sorted_wrt R ys" "mset xs = mset ys"
    and "\<And>a b. a \<in> set xs \<Longrightarrow> b \<in> set xs \<Longrightarrow> R a b \<Longrightarrow> R b a \<Longrightarrow> a = b"
  shows "xs = ys"
  using assms
proof (induction xs arbitrary: ys)
  case Nil
  then show ?case by simp
next
  case (Cons x xs)
  then obtain y ys' where ys: "ys = y # ys'" by (cases ys) auto
  have sets: "set (x # xs) = set (y # ys')"
    using Cons.prems(3) ys by (metis set_mset_mset)
  have "x = y"
  proof (rule ccontr)
    assume ne: "x \<noteq> y"
    then have "x \<in> set ys'" "y \<in> set xs" using sets by auto
    then have "R y x" "R x y" using Cons.prems(1,2) ys by auto
    moreover have "y \<in> set (x # xs)" using sets by auto
    ultimately show False using Cons.prems(4) [of x y] ne by auto
  qed
  moreover have "xs = ys'"
  proof (rule Cons.IH)
    show "sorted_wrt R xs" "sorted_wrt R ys'" using Cons.prems ys by auto
    show "mset xs = mset ys'" using Cons.prems(3) ys \<open>x = y\<close> by simp
    show "\<And>a b. a \<in> set xs \<Longrightarrow> b \<in> set xs \<Longrightarrow> R a b \<Longrightarrow> R b a \<Longrightarrow> a = b"
      using Cons.prems(4) by auto
  qed
  ultimately show ?case using ys by simp
qed

lemma sort_pairs_permutation:
  assumes "strict_order_on cmp (fst ` set ps)" "distinct (map fst ps)" "mset ps = mset qs"
  shows "sort_pairs cmp ps = sort_pairs cmp qs"
proof (rule sorted_unique [where R = "key_le cmp"])
  have sets: "set qs = set ps" using assms(3) by (metis set_mset_mset)
  show "sorted_wrt (key_le cmp) (sort_pairs cmp ps)"
    by (rule sorted_sort_pairs [OF assms(1)]) simp
  show "sorted_wrt (key_le cmp) (sort_pairs cmp qs)"
    by (rule sorted_sort_pairs [OF assms(1)]) (simp add: sets)
  show "mset (sort_pairs cmp ps) = mset (sort_pairs cmp qs)" using assms(3) by simp
  fix a b
  assume "a \<in> set (sort_pairs cmp ps)" "b \<in> set (sort_pairs cmp ps)"
    and le: "cmp (fst a) (fst b) \<le> 0" "cmp (fst b) (fst a) \<le> 0"
  then have ab: "a \<in> set ps" "b \<in> set ps" by simp_all
  then have "fst a \<in> fst ` set ps" "fst b \<in> fst ` set ps" by simp_all
  with le assms(1) have "fst a = fst b" unfolding strict_order_on_def by blast
  with ab assms(2) show "a = b" by (auto simp: distinct_map inj_on_def)
qed

lemma strict_order_on_subset:
  "strict_order_on cmp K \<Longrightarrow> K' \<subseteq> K \<Longrightarrow> strict_order_on cmp K'"
  unfolding strict_order_on_def by (meson subsetD)

lemma params_permutation:
  assumes "mset ps = mset qs" "distinct (map fst ps)"
  shows "params_get ps k = params_get qs k"
    and "mset (params_delete ps k) = mset (params_delete qs k)"
    and "distinct (map fst (params_delete ps k))"
proof -
  have "mset (map fst ps) = mset (map fst qs)" using assms(1) by (metis mset_map)
  then have dq: "distinct (map fst qs)" using assms(2) by (metis mset_eq_imp_distinct_iff)
  have "set ps = set qs" using assms(1) by (metis set_mset_mset)
  then have "map_of ps = map_of qs" using assms(2) dq by (simp add: map_of_inject_set)
  then show "params_get ps k = params_get qs k" by (simp add: params_get_def)
  show "mset (params_delete ps k) = mset (params_delete qs k)"
    using assms(1) by (simp add: params_delete_def mset_filter)
  show "distinct (map fst (params_delete ps k))"
    using assms(2) by (simp add: params_delete_def distinct_map_filter)
qed

lemma dataCheckString_permutation:
  assumes "mset ps = mset qs" "distinct (map fst ps)"
    and "strict_order_on (localeCompare P) (fst ` set ps)"
  shows "dataCheckString P ps = dataCheckString P qs"
  using sort_pairs_permutation [OF assms(3) assms(2) assms(1)]
  by (simp add: dataCheckString_def)

subsection \<open>Values of the examples\<close>

lemma example_platform_simps:
  "urlSearchParams example_platform = example_urlSearchParams"
  "localeCompare example_platform = example_localeCompare"
  "trim example_platform = example_trim"
  "toLowerCase example_platform = example_toLowerCase"
  "stringToNumber example_platform = example_stringToNumber"
  "sha256 example_platform = example_sha256"
  "hmacSha256 example_platform = example_hmacSha256"
  "jsonParse example_platform = example_jsonParse"
  by (simp_all add: example_platform_def)

lemmas mac_eval =
  computed_mac_def dataCheckString_def params_delete_def sort_pairs_def example_platform_simps
  example_trim_def is_space_def example_sha256_def example_hmacSha256_def

lemma mac_auth_date_100:
  "toHex (computed_mac example_platform ''tok'' [(''auth_date'', ''100''), (''hash'', h)])
     = ''33cee99e1ed87de3b6cda21b5d6528018a713b386e10778644ad357b5fdbc6d4''"
  "toBase64Url (computed_mac example_platform ''tok'' [(''auth_date'', ''100''), (''hash'', h)])
     = ''M87pnh7YfeO2zaIbXWUoAYpxOzhuEHeGRK01e1_bxtQ''"
  by (simp_all add: mac_eval toHex_def hex_digit_def toBase64Url_def b64_digit_def strip_padding_def)

lemma mac_auth_date_abc:
  "toHex (computed_mac example_platform ''tok'' [(''auth_date'', ''abc''), (''hash'', h)])
     = ''182df9492d736d54249ef9fd58accd3cc020b07c5c1cc802052886713b7451ca''"
  "toBase64Url (computed_mac example_platform ''tok'' [(''auth_date'', ''abc''), (''hash'', h)])
     = ''GC35SS1zbVQknvn9WKzNPMAgsHxcHMgCBSiGcTt0Uco''"
  by (simp_all add: mac_eval toHex_def hex_digit_def toBase64Url_def b64_digit_def strip_padding_def)

lemma mac_with_user:
  "toHex (computed_mac example_platform ''tok''
      [(''auth_date'', ''100''), (''user'', example_user), (''hash'', h)])
     = ''3a184fc9c48e16ddc2918141f7b79bebeb582f37d4585ece92a9d71230f271ff''"
  "toBase64Url (computed_mac example_platform ''tok''
      [(''auth_date'', ''100''), (''user'', example_user), (''hash'', h)])
     = ''OhhPycSOFt3CkYFB97eb6-tYLzfUWF7OkqnXEjDycf8''"
  by (simp_all add: mac_eval example_user_def toHex_def hex_digit_def toBase64Url_def b64_digit_def strip_padding_def)

lemmas word_eval = example_platform_simps example_trim_def is_space_def example_toLowerCase_def

lemma parse_signed:
  "example_urlSearchParams ''auth_date=100&hash=33cee99e1ed87de3b6cda21b5d6528018a713b386e10778644ad357b5fdbc6d4''
     = [(''auth_date'', ''100''),
        (''hash'', ''33cee99e1ed87de3b6cda21b5d6528018a713b386e10778644ad357b5fdbc6d4'')]"
  "example_urlSearchParams ''auth_date=100&hash=m87pnh7yfeo2zaibxwuoaypxozhuehegrk01e1_bxtq''
     = [(''auth_date'', ''100''), (''hash'', ''m87pnh7yfeo2zaibxwuoaypxozhuehegrk01e1_bxtq'')]"
  "example_urlSearchParams ''auth_date=abc&hash=182df9492d736d54249ef9fd58accd3cc020b07c5c1cc802052886713b7451ca''
     = [(''auth_date'', ''abc''),
        (''hash'', ''182df9492d736d54249ef9fd58accd3cc020b07c5c1cc802052886713b7451ca'')]"
  by (simp_all add: example_urlSearchParams_def example_user_def)

lemma number_100: "example_stringToNumber ''100'' = Num 100"
  by (simp add: example_stringToNumber_def is_digit_def)

lemma number_abc: "example_stringToNumber ''abc'' = NaN"
  by (simp add: example_stringToNumber_def is_digit_def)

lemma expiry_100:
  "auth_date_expired example_platform now
     (params_delete [(''auth_date'', ''100''), (''hash'', h)] ''hash'') maxAgeSec
   \<longleftrightarrow> now - 100 > maxAgeSec"
  by (simp add: auth_date_expired_def params_delete_def params_get_def example_platform_simps
        number_100 Let_def) linarith

lemma accepted_100:
  "verifyTelegramInitData example_platform 1000
     ''auth_date=100&hash=33cee99e1ed87de3b6cda21b5d6528018a713b386e10778644ad357b5fdbc6d4''
     (Some ''tok'') defaultMaxAgeSec = Accepted"
  by (simp add: verify_cases [where tok = "''tok''"
          and hash = "''33cee99e1ed87de3b6cda21b5d6528018a713b386e10778644ad357b5fdbc6d4''"]
        example_platform_simps(1) parse_signed params_get_def Let_def expiry_100
        defaultMaxAgeSec_def hash_ok_def mac_auth_date_100 word_eval)

lemma example_user_parse:
  "example_jsonParse example_user = Some (JObj [(''id'', JNum (Num 42))])" "example_user \<noteq> []"
  by (simp_all add: example_jsonParse_def example_user_def)

lemma parse_signed_user:
  "example_urlSearchParams example_signed_user
     = [(''auth_date'', ''100''), (''user'', example_user),
        (''hash'', ''3a184fc9c48e16ddc2918141f7b79bebeb582f37d4585ece92a9d71230f271ff'')]"
  "example_signed_user \<noteq> []"
  by (simp_all add: example_urlSearchParams_def example_user_def example_signed_user_def)

lemma accepted_signed_user:
  "verifyTelegramInitData example_platform 1000 example_signed_user (Some ''tok'') defaultMaxAgeSec
     = Accepted"
proof -
  let ?h = "''3a184fc9c48e16ddc2918141f7b79bebeb582f37d4585ece92a9d71230f271ff''"
  have exp: "\<not> auth_date_expired example_platform 1000
       (params_delete [(''auth_date'', ''100''), (''user'', example_user), (''hash'', ?h)] ''hash'')
       defaultMaxAgeSec"
    by (simp add: auth_date_expired_def params_delete_def params_get_def example_platform_simps
        number_100 Let_def defaultMaxAgeSec_def)
  show ?thesis
    by (simp add: verify_cases [where tok = "''tok''" and hash = ?h]
        example_platform_simps(1) parse_signed_user params_get_def Let_def exp
        hash_ok_def mac_with_user word_eval)
qed

lemma example_gate:
  "requireUser example_platform 1000 (Some ''tok'') (Some example_signed_user) = Inr (JNum (Num 42))"
  using accepted_signed_user
  by (simp add: requireUser_def getTelegramUserFromInitData_def example_platform_simps(1,8)
      parse_signed_user params_get_def example_user_parse)

section \<open>Properties of the verifier and of the gate\<close>

text \<open>
  Claim C1, as the code has it. The canonical message is the list of the fields other than
  \<^verbatim>\<open>hash\<close>, sorted by key with \<^verbatim>\<open>localeCompare\<close> (a stable sort), each rendered
  \<^verbatim>\<open>key=value\<close>, joined by newlines. When no key occurs twice among the fields and
  \<^verbatim>\<open>localeCompare\<close> orders the keys strictly, two query strings with the same fields in
  any order get the same verification result.
\<close>

theorem verify_order_independent:
  assumes "initData1 \<noteq> []" "initData2 \<noteq> []"
    and "mset (urlSearchParams P initData1) = mset (urlSearchParams P initData2)"
    and "distinct (map fst (urlSearchParams P initData1))"
    and "strict_order_on (localeCompare P) (fst ` set (urlSearchParams P initData1))"
  shows "verifyTelegramInitData P now initData1 botToken maxAgeSec
       = verifyTelegramInitData P now initData2 botToken maxAgeSec"
proof -
  let ?ps = "urlSearchParams P initData1" and ?qs = "urlSearchParams P initData2"
  let ?ps' = "params_delete ?ps ''hash''" and ?qs' = "params_delete ?qs ''hash''"
  note perm = params_permutation [OF assms(3) assms(4)]
  have hash: "params_get ?ps ''hash'' = params_get ?qs ''hash''" by (rule perm(1))
  have del: "mset ?ps' = mset ?qs'" by (rule perm(2))
  have dis: "distinct (map fst ?ps')" by (rule perm(3))
  have "fst ` set ?ps' \<subseteq> fst ` set ?ps" by (auto simp: params_delete_def)
  with assms(5) have ord: "strict_order_on (localeCompare P) (fst ` set ?ps')"
    by (rule strict_order_on_subset)
  have dcs: "dataCheckString P ?ps' = dataCheckString P ?qs'"
    by (rule dataCheckString_permutation [OF del dis ord])
  have "params_get ?ps' ''auth_date'' = params_get ?qs' ''auth_date''"
    by (rule params_permutation(1) [OF del dis])
  then have auth: "auth_date_expired P now ?ps' maxAgeSec = auth_date_expired P now ?qs' maxAgeSec"
    by (simp add: auth_date_expired_def)
  show ?thesis
    using assms(1,2) by (simp add: verifyTelegramInitData_def Let_def hash dcs auth)
qed

text \<open>
  Witness for C1: the three fields \<^verbatim>\<open>auth_date\<close>, \<^verbatim>\<open>query_id\<close>, \<^verbatim>\<open>hash\<close> in two
  orders.
\<close>

theorem verify_order_independent_witness:
  "''auth_date=100&query_id=q&hash=abc'' \<noteq> [] \<and> ''hash=abc&query_id=q&auth_date=100'' \<noteq> []
   \<and> mset (urlSearchParams example_platform ''auth_date=100&query_id=q&hash=abc'')
       = mset (urlSearchParams example_platform ''hash=abc&query_id=q&auth_date=100'')
   \<and> distinct (map fst (urlSearchParams example_platform ''auth_date=100&query_id=q&hash=abc''))
   \<and> strict_order_on (localeCompare example_platform)
         (fst ` set (urlSearchParams example_platform ''auth_date=100&query_id=q&hash=abc''))
   \<and> verifyTelegramInitData example_platform 1000 ''auth_date=100&query_id=q&hash=abc''
         (Some ''tok'') defaultMaxAgeSec
       = verifyTelegramInitData example_platform 1000 ''hash=abc&query_id=q&auth_date=100''
         (Some ''tok'') defaultMaxAgeSec"
proof -
  have p1: "example_urlSearchParams ''auth_date=100&query_id=q&hash=abc''
              = [(''auth_date'', ''100''), (''query_id'', ''q''), (''hash'', ''abc'')]"
    and p2: "example_urlSearchParams ''hash=abc&query_id=q&auth_date=100''
              = [(''hash'', ''abc''), (''query_id'', ''q''), (''auth_date'', ''100'')]"
    by (simp_all add: example_urlSearchParams_def)
  have h1: "''auth_date=100&query_id=q&hash=abc'' \<noteq> []"
    and h2: "''hash=abc&query_id=q&auth_date=100'' \<noteq> []" by simp_all
  have h3: "mset (urlSearchParams example_platform ''auth_date=100&query_id=q&hash=abc'')
       = mset (urlSearchParams example_platform ''hash=abc&query_id=q&auth_date=100'')"
    by (simp add: example_platform_simps(1) p1 p2)
  have h4: "distinct (map fst (urlSearchParams example_platform ''auth_date=100&query_id=q&hash=abc''))"
    by (simp add: example_platform_simps(1) p1)
  have h5: "strict_order_on (localeCompare example_platform)
         (fst ` set (urlSearchParams example_platform ''auth_date=100&query_id=q&hash=abc''))"
    by (simp add: example_platform_simps(1,2) p1 strict_order_on_def)
  from verify_order_independent [OF h1 h2 h3 h4 h5] h3 h4 h5 show ?thesis by simp
qed

text \<open>
  Counterexample to C1 as stated (for every field set): \<^verbatim>\<open>params.get("hash")\<close> reads the
  first of two \<^verbatim>\<open>hash\<close> fields, so \<^verbatim>\<open>hash=&hash=abc\<close> has no hash while
  \<^verbatim>\<open>hash=abc&hash=\<close>, the same fields in the other order, has one and goes on to the
  comparison.
\<close>

theorem duplicate_hash_order_counterexample:
  "mset (urlSearchParams example_platform ''hash=&hash=abc'')
     = mset (urlSearchParams example_platform ''hash=abc&hash='')
   \<and> verifyTelegramInitData example_platform 0 ''hash=&hash=abc'' (Some ''tok'') defaultMaxAgeSec
       = Refused ''no_hash'' None
   \<and> verifyTelegramInitData example_platform 0 ''hash=abc&hash='' (Some ''tok'') defaultMaxAgeSec
       \<noteq> Refused ''no_hash'' None"
proof -
  have p1: "example_urlSearchParams ''hash=&hash=abc'' = [(''hash'', []), (''hash'', ''abc'')]"
    and p2: "example_urlSearchParams ''hash=abc&hash='' = [(''hash'', ''abc''), (''hash'', [])]"
    by (simp_all add: example_urlSearchParams_def)
  have "verifyTelegramInitData example_platform 0 ''hash=&hash=abc'' (Some ''tok'') defaultMaxAgeSec
       = Refused ''no_hash'' None"
    by (simp add: verifyTelegramInitData_def example_platform_simps p1 params_get_def)
  moreover have "verifyTelegramInitData example_platform 0 ''hash=abc&hash='' (Some ''tok'') defaultMaxAgeSec
       \<noteq> Refused ''no_hash'' None"
    by (simp add: verify_cases [where tok = "''tok''" and hash = "''abc''"] example_platform_simps(1) p2 params_get_def Let_def)
  ultimately show ?thesis by (simp add: example_platform_simps(1) p1 p2)
qed

text \<open>
  Claim C2, as the code has it. For a payload with a non-empty \<^verbatim>\<open>hash\<close> field that the
  \<^verbatim>\<open>auth_date\<close> check lets through, the verifier accepts exactly when the trimmed hash,
  lower-cased, equals the hex rendering of the digest, or the trimmed hash equals its
  unpadded base64-url rendering, as it is or lower-cased. \<^verbatim>\<open>safeEq\<close> answers
  \<^verbatim>\<open>false\<close> on two strings of different length.
\<close>

theorem verify_accepts_iff:
  assumes "initData \<noteq> []" "botToken = Some tok" "tok \<noteq> []"
    and "params_get (urlSearchParams P initData) ''hash'' = Some hash" "hash \<noteq> []"
    and "\<not> auth_date_expired P now (params_delete (urlSearchParams P initData) ''hash'') maxAgeSec"
  shows "(verifyTelegramInitData P now initData botToken maxAgeSec = Accepted
           \<longleftrightarrow> hash_ok P (computed_mac P tok (urlSearchParams P initData)) hash)
         \<and> (\<forall>a b. length a \<noteq> length b \<longrightarrow> safeEq a b = False)"
  using assms by (auto simp: verify_cases Let_def safeEq_def)

text \<open>
  Witness for C2: a payload signed with the hex rendering, within the age limit.
\<close>

theorem verify_accepts_iff_witness:
  "verifyTelegramInitData example_platform 1000
     ''auth_date=100&hash=33cee99e1ed87de3b6cda21b5d6528018a713b386e10778644ad357b5fdbc6d4''
     (Some ''tok'') defaultMaxAgeSec = Accepted
   \<and> hash_ok example_platform
        (computed_mac example_platform ''tok''
          (urlSearchParams example_platform
             ''auth_date=100&hash=33cee99e1ed87de3b6cda21b5d6528018a713b386e10778644ad357b5fdbc6d4''))
        ''33cee99e1ed87de3b6cda21b5d6528018a713b386e10778644ad357b5fdbc6d4''
   \<and> \<not> safeEq ''abc'' ''abcd''"
proof -
  let ?i = "''auth_date=100&hash=33cee99e1ed87de3b6cda21b5d6528018a713b386e10778644ad357b5fdbc6d4''"
  let ?h = "''33cee99e1ed87de3b6cda21b5d6528018a713b386e10778644ad357b5fdbc6d4''"
  have h1: "?i \<noteq> []" and h2: "Some ''tok'' = Some ''tok''" and h3: "''tok'' \<noteq> []"
    and h5: "?h \<noteq> []" by simp_all
  have h4: "params_get (urlSearchParams example_platform ?i) ''hash'' = Some ?h"
    by (simp add: example_platform_simps(1) parse_signed params_get_def)
  have h6: "\<not> auth_date_expired example_platform 1000
              (params_delete (urlSearchParams example_platform ?i) ''hash'') defaultMaxAgeSec"
    by (simp add: example_platform_simps(1) parse_signed expiry_100 defaultMaxAgeSec_def)
  have ok: "hash_ok example_platform
        (computed_mac example_platform ''tok'' (urlSearchParams example_platform ?i)) ?h"
    by (simp add: example_platform_simps(1) parse_signed hash_ok_def mac_auth_date_100 word_eval)
  from verify_accepts_iff [OF h1 h2 h3 h4 h5 h6] ok show ?thesis by simp
qed

text \<open>
  Counterexample to C2 as stated (accepted if and only if the hash equals one of the two
  renderings up to case): the base64-url rendering in lower case is equal to it up to case
  and is refused; the exact hex rendering is refused once \<^verbatim>\<open>auth_date\<close> is too old.
\<close>

theorem base64_case_and_expiry_counterexample:
  "toLowerCase example_platform (trim example_platform ''m87pnh7yfeo2zaibxwuoaypxozhuehegrk01e1_bxtq'')
     = toLowerCase example_platform
         (toBase64Url (computed_mac example_platform ''tok''
            (urlSearchParams example_platform
               ''auth_date=100&hash=m87pnh7yfeo2zaibxwuoaypxozhuehegrk01e1_bxtq'')))
   \<and> verifyTelegramInitData example_platform 1000
         ''auth_date=100&hash=m87pnh7yfeo2zaibxwuoaypxozhuehegrk01e1_bxtq''
         (Some ''tok'') defaultMaxAgeSec \<noteq> Accepted
   \<and> toLowerCase example_platform
         (trim example_platform ''33cee99e1ed87de3b6cda21b5d6528018a713b386e10778644ad357b5fdbc6d4'')
     = toHex (computed_mac example_platform ''tok''
            (urlSearchParams example_platform
               ''auth_date=100&hash=33cee99e1ed87de3b6cda21b5d6528018a713b386e10778644ad357b5fdbc6d4''))
   \<and> verifyTelegramInitData example_platform 100000
         ''auth_date=100&hash=33cee99e1ed87de3b6cda21b5d6528018a713b386e10778644ad357b5fdbc6d4''
         (Some ''tok'') defaultMaxAgeSec \<noteq> Accepted"
proof -
  have "verifyTelegramInitData example_platform 1000
         ''auth_date=100&hash=m87pnh7yfeo2zaibxwuoaypxozhuehegrk01e1_bxtq''
         (Some ''tok'') defaultMaxAgeSec \<noteq> Accepted"
    by (simp add: verify_cases [where tok = "''tok''"
          and hash = "''m87pnh7yfeo2zaibxwuoaypxozhuehegrk01e1_bxtq''"]
        example_platform_simps(1) parse_signed params_get_def Let_def expiry_100
        defaultMaxAgeSec_def hash_ok_def mac_auth_date_100 word_eval)
  moreover have "verifyTelegramInitData example_platform 100000
         ''auth_date=100&hash=33cee99e1ed87de3b6cda21b5d6528018a713b386e10778644ad357b5fdbc6d4''
         (Some ''tok'') defaultMaxAgeSec \<noteq> Accepted"
    by (simp add: verify_cases [where tok = "''tok''"
          and hash = "''33cee99e1ed87de3b6cda21b5d6528018a713b386e10778644ad357b5fdbc6d4''"]
        example_platform_simps(1) parse_signed params_get_def Let_def expiry_100
        defaultMaxAgeSec_def)
  ultimately show ?thesis
    by (simp add: example_platform_simps(1) parse_signed mac_auth_date_100 word_eval)
qed

text \<open>
  Claim C3. For a payload that reaches the \<^verbatim>\<open>auth_date\<close> check (non-empty, with a token
  and a non-empty \<^verbatim>\<open>hash\<close>) and whose first \<^verbatim>\<open>auth_date\<close> field is a finite number,
  \<^verbatim>\<open>now - auth_date > maxAgeSec\<close> gives \<^verbatim>\<open>auth_date_expired\<close>, whatever the hash. The
  default of \<^verbatim>\<open>maxAgeSec\<close> is 86400.
\<close>

theorem expired_auth_date_refused:
  assumes "initData \<noteq> []" "botToken = Some tok" "tok \<noteq> []"
    and "params_get (urlSearchParams P initData) ''hash'' = Some hash" "hash \<noteq> []"
    and "params_get (urlSearchParams P initData) ''auth_date'' = Some authDateStr"
    and "stringToNumber P authDateStr = Num authDate" "authDateStr \<noteq> []"
    and "of_int now - authDate > of_int maxAgeSec"
  shows "verifyTelegramInitData P now initData botToken maxAgeSec = Refused ''auth_date_expired'' None
         \<and> defaultMaxAgeSec = 86400"
  using assms
  by (simp add: verify_cases Let_def auth_date_expired_def params_get_delete defaultMaxAgeSec_def)

text \<open>
  Witness for C3: one payload with a valid hash, accepted at \<open>now = 1000\<close> and expired at
  \<open>now = 100000\<close>.
\<close>

theorem expired_auth_date_refused_witness:
  "verifyTelegramInitData example_platform 1000
     ''auth_date=100&hash=33cee99e1ed87de3b6cda21b5d6528018a713b386e10778644ad357b5fdbc6d4''
     (Some ''tok'') defaultMaxAgeSec = Accepted
   \<and> verifyTelegramInitData example_platform 100000
     ''auth_date=100&hash=33cee99e1ed87de3b6cda21b5d6528018a713b386e10778644ad357b5fdbc6d4''
     (Some ''tok'') defaultMaxAgeSec = Refused ''auth_date_expired'' None"
proof -
  let ?i = "''auth_date=100&hash=33cee99e1ed87de3b6cda21b5d6528018a713b386e10778644ad357b5fdbc6d4''"
  let ?h = "''33cee99e1ed87de3b6cda21b5d6528018a713b386e10778644ad357b5fdbc6d4''"
  have h1: "?i \<noteq> []" and h2: "Some ''tok'' = Some ''tok''" and h3: "''tok'' \<noteq> []"
    and h5: "?h \<noteq> []" and h8: "''100'' \<noteq> []" by simp_all
  have h4: "params_get (urlSearchParams example_platform ?i) ''hash'' = Some ?h"
    by (simp add: example_platform_simps(1) parse_signed params_get_def)
  have h6: "params_get (urlSearchParams example_platform ?i) ''auth_date'' = Some ''100''"
    by (simp add: example_platform_simps(1) parse_signed params_get_def)
  have h7: "stringToNumber example_platform ''100'' = Num 100"
    by (simp add: example_platform_simps number_100)
  have h9: "of_int 100000 - (100::rat) > of_int defaultMaxAgeSec"
    by (simp add: defaultMaxAgeSec_def)
  from expired_auth_date_refused [OF h1 h2 h3 h4 h5 h6 h7 h8 h9] accepted_100
  show ?thesis by simp
qed

text \<open>
  Claim C10. When the first \<^verbatim>\<open>auth_date\<close> field is empty or does not convert to a finite
  number, the verifier never answers \<^verbatim>\<open>auth_date_expired\<close>, its answer does not depend on
  the clock or on the age limit, and it accepts when the hash matches.
\<close>

theorem malformed_auth_date_skips_expiry:
  assumes "initData \<noteq> []" "botToken = Some tok" "tok \<noteq> []"
    and "params_get (urlSearchParams P initData) ''hash'' = Some hash" "hash \<noteq> []"
    and "params_get (urlSearchParams P initData) ''auth_date'' = Some authDateStr"
    and "authDateStr = [] \<or> \<not> isFinite (stringToNumber P authDateStr)"
  shows "verifyTelegramInitData P now initData botToken maxAgeSec \<noteq> Refused ''auth_date_expired'' dbg
         \<and> verifyTelegramInitData P now initData botToken maxAgeSec
             = verifyTelegramInitData P now' initData botToken maxAgeSec'
         \<and> (hash_ok P (computed_mac P tok (urlSearchParams P initData)) hash
              \<longrightarrow> verifyTelegramInitData P now initData botToken maxAgeSec = Accepted)"
proof -
  have "\<not> auth_date_expired P t (params_delete (urlSearchParams P initData) ''hash'') m" for t m
    using assms(6,7) by (auto simp: auth_date_expired_def params_get_delete Let_def)
  then show ?thesis using assms(1-5) by (simp add: verify_cases Let_def)
qed

text \<open>
  Witness for C10: \<^verbatim>\<open>auth_date=abc\<close> with a matching hash is accepted at any time.
\<close>

theorem malformed_auth_date_skips_expiry_witness:
  "params_get (urlSearchParams example_platform
       ''auth_date=abc&hash=182df9492d736d54249ef9fd58accd3cc020b07c5c1cc802052886713b7451ca'')
     ''auth_date'' = Some ''abc''
   \<and> \<not> isFinite (stringToNumber example_platform ''abc'')
   \<and> verifyTelegramInitData example_platform 100000
     ''auth_date=abc&hash=182df9492d736d54249ef9fd58accd3cc020b07c5c1cc802052886713b7451ca''
     (Some ''tok'') defaultMaxAgeSec = Accepted"
proof -
  let ?i = "''auth_date=abc&hash=182df9492d736d54249ef9fd58accd3cc020b07c5c1cc802052886713b7451ca''"
  let ?h = "''182df9492d736d54249ef9fd58accd3cc020b07c5c1cc802052886713b7451ca''"
  have h1: "?i \<noteq> []" and h2: "Some ''tok'' = Some ''tok''" and h3: "''tok'' \<noteq> []"
    and h5: "?h \<noteq> []" by simp_all
  have h4: "params_get (urlSearchParams example_platform ?i) ''hash'' = Some ?h"
    by (simp add: example_platform_simps(1) parse_signed params_get_def)
  have h6: "params_get (urlSearchParams example_platform ?i) ''auth_date'' = Some ''abc''"
    by (simp add: example_platform_simps(1) parse_signed params_get_def)
  have nan: "\<not> isFinite (stringToNumber example_platform ''abc'')"
    by (simp add: example_platform_simps number_abc)
  then have h7: "''abc'' = [] \<or> \<not> isFinite (stringToNumber example_platform ''abc'')" by simp
  have ok: "hash_ok example_platform
        (computed_mac example_platform ''tok'' (urlSearchParams example_platform ?i)) ?h"
    by (simp add: example_platform_simps(1) parse_signed hash_ok_def mac_auth_date_abc word_eval)
  from malformed_auth_date_skips_expiry [OF h1 h2 h3 h4 h5 h6 h7, of 100000 defaultMaxAgeSec] ok h6 nan
  show ?thesis by simp
qed

text \<open>
  Claim C4, as the code has it. \<^verbatim>\<open>verifyTelegramInitData\<close> does not look at the
  \<^verbatim>\<open>user\<close> field. After it has accepted, \<^verbatim>\<open>requireUser\<close> answers 401 with the error
  \<^verbatim>\<open>No user\<close> and no reason code when the field is absent, empty or not JSON; that is its
  only rejection at this point; and when it lets the request through, the id it binds is the
  \<^verbatim>\<open>id\<close> of the parsed \<^verbatim>\<open>user\<close> field.
\<close>

theorem gate_binds_user_id:
  assumes "header = Some initData" "initData \<noteq> []"
    and "verifyTelegramInitData P now initData botToken defaultMaxAgeSec = Accepted"
  shows "(params_get (urlSearchParams P initData) ''user'' = None
            \<or> params_get (urlSearchParams P initData) ''user'' = Some []
            \<or> (\<exists>userStr. params_get (urlSearchParams P initData) ''user'' = Some userStr
                  \<and> jsonParse P userStr = None)
          \<longrightarrow> requireUser P now botToken header = Inl (Reject 401 ''No user'' None))
         \<and> (\<forall>uid. requireUser P now botToken header = Inr uid
              \<longrightarrow> (\<exists>userStr u. params_get (urlSearchParams P initData) ''user'' = Some userStr
                     \<and> jsonParse P userStr = Some u \<and> get_prop_opt u ''id'' = Some uid))
         \<and> (\<forall>r. requireUser P now botToken header = Inl r \<longrightarrow> r = Reject 401 ''No user'' None)"
  using assms
  by (auto simp: requireUser_def getTelegramUserFromInitData_def Let_def
           split: option.splits if_splits dest: truthy_Some)

text \<open>
  Witness for C4: a signed payload whose user is \<^verbatim>\<open>{"id":42}\<close> binds the id 42.
\<close>

theorem gate_binds_user_id_witness:
  "verifyTelegramInitData example_platform 1000 example_signed_user (Some ''tok'') defaultMaxAgeSec
     = Accepted
   \<and> requireUser example_platform 1000 (Some ''tok'') (Some example_signed_user)
     = Inr (JNum (Num 42))
   \<and> (\<exists>userStr u.
         params_get (urlSearchParams example_platform example_signed_user) ''user'' = Some userStr
         \<and> jsonParse example_platform userStr = Some u
         \<and> get_prop_opt u ''id'' = Some (JNum (Num 42)))"
proof -
  have h1: "Some example_signed_user = Some example_signed_user"
    and h2: "example_signed_user \<noteq> []" by (simp_all add: parse_signed_user)
  from gate_binds_user_id [OF h1 h2 accepted_signed_user] example_gate accepted_signed_user
  show ?thesis by blast
qed

text \<open>
  Counterexample to C4 as stated (verification fails with reason \<^verbatim>\<open>no_user\<close>): on a
  signed payload without a \<^verbatim>\<open>user\<close> field the verifier accepts, and the rejection of the
  gate carries the error \<^verbatim>\<open>No user\<close> and no reason.
\<close>

theorem unsigned_user_counterexample:
  "params_get (urlSearchParams example_platform
       ''auth_date=100&hash=33cee99e1ed87de3b6cda21b5d6528018a713b386e10778644ad357b5fdbc6d4'')
     ''user'' = None
   \<and> verifyTelegramInitData example_platform 1000
     ''auth_date=100&hash=33cee99e1ed87de3b6cda21b5d6528018a713b386e10778644ad357b5fdbc6d4''
     (Some ''tok'') defaultMaxAgeSec = Accepted
   \<and> requireUser example_platform 1000 (Some ''tok'')
     (Some ''auth_date=100&hash=33cee99e1ed87de3b6cda21b5d6528018a713b386e10778644ad357b5fdbc6d4'')
     = Inl (Reject 401 ''No user'' None)"
  by (simp add: accepted_100 requireUser_def getTelegramUserFromInitData_def
        example_platform_simps(1) parse_signed params_get_def)

section \<open>Lemmas about the store and the two routes\<close>

lemma issue_eq:
  "issue c s = (case faults s of [] \<Rightarrow> None | f # _ \<Rightarrow> f,
                s\<lparr>faults := tl (faults s), journal := journal s @ [c]\<rparr>)"
  by (cases "faults s") (auto simp: issue_def)

lemma issue_healthy:
  "faults s = [] \<Longrightarrow> issue c s = (None, s\<lparr>journal := journal s @ [c]\<rparr>)"
  by (simp add: issue_def)

lemma group_sets_snoc:
  "group_sets (rows @ [r]) =
     (group_sets rows)(exercise_id r \<mapsto>
        (case group_sets rows (exercise_id r) of None \<Rightarrow> [] | Some arr \<Rightarrow> arr) @ [r])"
  by (simp add: group_sets_def)

lemma group_sets_filter:
  "group_sets rows k =
     (if filter (\<lambda>r. exercise_id r = k) rows = [] then None
      else Some (filter (\<lambda>r. exercise_id r = k) rows))"
proof (induction rows rule: rev_induct)
  case Nil
  then show ?case by (simp add: group_sets_def)
next
  case (snoc r rows)
  then show ?case by (auto simp: group_sets_snoc)
qed

lemma group_sets_lookup:
  "(case group_sets rows k of None \<Rightarrow> [] | Some arr \<Rightarrow> arr) = filter (\<lambda>r. exercise_id r = k) rows"
  by (simp add: group_sets_filter)

text \<open>
  Claim C8. When the store answers, the read route sends \<^verbatim>\<open>null\<close> if no workout row
  matches the user and the date, and the workout with an empty list of exercises if the
  workout has no exercise row; and whatever it sends, the sets attached to an exercise are
  rows of that exercise only.
\<close>

theorem read_null_or_empty:
  assumes "faults s = []" "d \<noteq> []"
  shows "(filter (\<lambda>w. user_id w = u \<and> workout_date w = JStr d) (workouts s) = []
            \<longrightarrow> fst (getWorkouts u (Some d) s) = SendNull)
       \<and> (\<forall>w. filter (\<lambda>w. user_id w = u \<and> workout_date w = JStr d) (workouts s) = [w]
                \<and> filter (\<lambda>e. workout_id e = w_id w) (workout_exercises s) = []
              \<longrightarrow> fst (getWorkouts u (Some d) s) = SendWorkout w [])
       \<and> (\<forall>w exs. fst (getWorkouts u (Some d) s) = SendWorkout w exs
              \<longrightarrow> (\<forall>(e, rows) \<in> set exs. \<forall>r \<in> set rows. exercise_id r = e_id e))"
  using assms
  by (auto simp: getWorkouts_def select_workout_def select_exercises_def select_sets_def
        issue_healthy Let_def group_sets_lookup split: list.splits)

lemma get_prop_Inr: "get_prop v k = Inr x \<Longrightarrow> x = get_prop_opt v k \<and> v \<noteq> JNull"
  by (cases v) auto


lemma exRows_from_Inr:
  "exRows_from wid idx exs = Inr rows \<Longrightarrow>
     rows = map (\<lambda>(i, e). (wid, get_prop_opt e ''name'', i + 1)) (enumerate idx exs)
     \<and> JNull \<notin> set exs"
proof (induction exs arbitrary: idx rows)
  case Nil
  then show ?case by simp
next
  case (Cons e exs)
  then show ?case
    by (auto split: sum.splits dest!: get_prop_Inr)
qed

lemma setRows_from_Inr:
  "setRows_from P exId idx ss = Inr rows \<Longrightarrow>
     rows = map (\<lambda>(j, x). (exId, j + 1, coerce P (get_prop_opt x ''reps''),
                            coerce P (get_prop_opt x ''weight_kg''))) (enumerate idx ss)"
proof (induction ss arbitrary: idx rows)
  case Nil
  then show ?case by simp
next
  case (Cons x ss)
  then show ?case
    by (auto simp: coerce_def split: sum.splits dest!: get_prop_Inr)
qed





lemma number_from_Nil [simp]: "number_from n [] = []"
  by (simp add: number_from_def)

lemma number_from_Cons [simp]: "number_from n (x # xs) = (n, x) # number_from (Suc n) xs"
  unfolding number_from_def by (subst upt_rec) simp

lemma length_number_from [simp]: "length (number_from n xs) = length xs"
  by (simp add: number_from_def)


lemma map_snd_number_from: "map snd (number_from n xs) = xs"
  by (simp add: number_from_def)



















lemma wf_store_cong:
  "workouts s' = workouts s \<Longrightarrow> workout_exercises s' = workout_exercises s \<Longrightarrow>
   workout_sets s' = workout_sets s \<Longrightarrow> next_id s' = next_id s \<Longrightarrow>
   wf_store s' = wf_store s"
  by (simp add: wf_store_def)

lemma wf_issue: "wf_store (snd (issue c s)) = wf_store s"
  by (rule wf_store_cong) (simp_all add: issue_eq)

lemma w_id_update [simp]:
  "w_id (if c then x\<lparr>title := t, w_notes := n\<rparr> else x) = w_id x"
  by simp






lemma insert_exercises_eq:
  "insert_exercises exRows s =
     (case fst (issue Insert_exercises s) of
        Some m \<Rightarrow> (Inl m, snd (issue Insert_exercises s))
      | None \<Rightarrow>
          (Inr (map mk_exercise (number_from (next_id s) exRows)),
           (snd (issue Insert_exercises s))
             \<lparr>workout_exercises := workout_exercises s @ map mk_exercise (number_from (next_id s) exRows),
              next_id := next_id s + length exRows\<rparr>))"
  by (simp add: insert_exercises_def issue_eq mk_exercise_def Let_def split: option.splits)


lemma insert_sets_eq:
  "insert_sets setRows s =
     (case fst (issue Insert_sets s) of
        Some m \<Rightarrow> (Inl m, snd (issue Insert_sets s))
      | None \<Rightarrow>
          (Inr (),
           (snd (issue Insert_sets s))
             \<lparr>workout_sets := workout_sets s @ map mk_set (number_from (next_id s) setRows),
              next_id := next_id s + length setRows\<rparr>))"
  by (simp add: insert_sets_def issue_eq mk_set_def Let_def split: option.splits)

lemma map_exercise_id_inserted:
  "map exercise_id (map mk_set (number_from n rows)) = map fst rows"
  by (induction rows arbitrary: n) (auto simp: mk_set_def)

lemma exercise_id_inserted_sets:
  assumes "r \<in> set (map mk_set (number_from n rows))"
  shows "exercise_id r \<in> fst ` set rows"
proof -
  from assms have "exercise_id r \<in> set (map exercise_id (map mk_set (number_from n rows)))"
    by force
  then show ?thesis by (simp only: map_exercise_id_inserted) simp
qed


lemma setRows_from_ids:
  "setRows_from P exId idx ss = Inr rows \<Longrightarrow> t \<in> set rows \<Longrightarrow> fst t = exId"
  by (drule setRows_from_Inr) auto

lemma setRows_of_ids:
  "setRows_of P exs ins = Inr rows \<Longrightarrow> fst ` set rows \<subseteq> e_id ` set ins"
proof (induction P exs ins arbitrary: rows rule: setRows_of.induct)
  case (1 P insertedEx)
  then show ?case by simp
next
  case (2 P ex exs)
  then show ?case by simp
next
  case (3 P ex exs ins inss)
  from "3.prems" obtain v rs rest where
    v: "get_prop ex ''sets'' = Inr v"
    and rs: "setRows_from P (e_id ins) 0 (case v of Some (JArr a) \<Rightarrow> a | _ \<Rightarrow> []) = Inr rs"
    and rest: "setRows_of P exs inss = Inr rest" and rows: "rows = rs @ rest"
    by (auto simp: Let_def split: sum.splits)
  have "fst ` set rs \<subseteq> {e_id ins}" using setRows_from_ids [OF rs] by auto
  moreover have "fst ` set rest \<subseteq> e_id ` set inss"
    using "3.IH" [OF v refl rs rest] .
  ultimately show ?case using rows by auto
qed









lemmas store_eval =
  postWorkouts_def upsert_workout_def select_old_exercises_def delete_sets_def
  delete_exercises_def insert_exercises_def insert_sets_def issue_def number_from_def
  nullish_or_def Let_def














text \<open>
  Claim C6 fails on the code for the second, third and fourth statement. With the exercise
  delete failing, the route still answers \<^verbatim>\<open>ok\<close>, issues the two inserts, and the workout
  holds the old exercise next to the new one, both at position 1. With the fetch of the old
  exercise ids failing, it answers \<^verbatim>\<open>ok\<close> too, skips the set delete, and the set of the
  deleted exercise stays in the table.
\<close>

theorem swallowed_store_failure:
  "fst (postWorkouts example_platform (JNum (Num 42)) example_body
          (example_store\<lparr>faults := [None, None, None, Some ''boom'']\<rparr>)) = SendOk 1
   \<and> journal (snd (postWorkouts example_platform (JNum (Num 42)) example_body
          (example_store\<lparr>faults := [None, None, None, Some ''boom'']\<rparr>)))
       = [Upsert_workout, Select_old_exercises, Delete_sets, Delete_exercises,
          Insert_exercises, Insert_sets]
   \<and> map (\<lambda>e. (name e, position e))
         (workout_exercises (snd (postWorkouts example_platform (JNum (Num 42)) example_body
            (example_store\<lparr>faults := [None, None, None, Some ''boom'']\<rparr>))))
       = [(Some (JStr ''Bench''), 1), (Some (JStr ''Squat''), 1)]
   \<and> fst (postWorkouts example_platform (JNum (Num 42)) example_body
          (example_store\<lparr>faults := [None, Some ''boom'']\<rparr>)) = SendOk 1
   \<and> journal (snd (postWorkouts example_platform (JNum (Num 42)) example_body
          (example_store\<lparr>faults := [None, Some ''boom'']\<rparr>)))
       = [Upsert_workout, Select_old_exercises, Delete_exercises, Insert_exercises, Insert_sets]
   \<and> map exercise_id
         (workout_sets (snd (postWorkouts example_platform (JNum (Num 42)) example_body
            (example_store\<lparr>faults := [None, Some ''boom'']\<rparr>))))
       = [2, 4]"
  by (simp add: store_eval example_store_def example_body_def)

text \<open>
  Witness for C8: a user without a workout, and a workout without exercises.
\<close>

theorem read_null_or_empty_witness:
  "fst (getWorkouts (JNum (Num 7)) (Some ''2024-01-01'') example_store) = SendNull
   \<and> fst (getWorkouts (JNum (Num 42)) (Some ''2024-01-01'')
           (example_store\<lparr>workout_exercises := []\<rparr>))
       = SendWorkout \<lparr>w_id = 1, user_id = JNum (Num 42), workout_date = JStr ''2024-01-01'',
                      title = JNull, w_notes = JNull\<rparr> []"
proof -
  have h1: "faults example_store = []" and h2: "''2024-01-01'' \<noteq> []"
    and h3: "faults (example_store\<lparr>workout_exercises := []\<rparr>) = []"
    by (simp_all add: example_store_def)
  from read_null_or_empty [OF h1 h2, of "JNum (Num 7)"]
    read_null_or_empty [OF h3 h2, of "JNum (Num 42)"]
  show ?thesis by (simp add: example_store_def)
qed

lemma tables_issue [simp]:
  "workouts (snd (issue c s)) = workouts s"
  "workout_exercises (snd (issue c s)) = workout_exercises s"
  "workout_sets (snd (issue c s)) = workout_sets s"
  by (simp_all add: issue_eq)

lemma upsert_workout_effect:
  "filter (\<lambda>w. user_id w \<noteq> u) (workouts (snd (upsert_workout u d t n s)))
     = filter (\<lambda>w. user_id w \<noteq> u) (workouts s)"
  "workout_exercises (snd (upsert_workout u d t n s)) = workout_exercises s"
  "workout_sets (snd (upsert_workout u d t n s)) = workout_sets s"
proof -
  have "filter (\<lambda>w. user_id w \<noteq> u)
          (map (\<lambda>x. if user_id x = u \<and> workout_date x = d then x\<lparr>title := t, w_notes := n\<rparr> else x) ws)
        = filter (\<lambda>w. user_id w \<noteq> u) ws" for ws
    by (induction ws) auto
  then show "filter (\<lambda>w. user_id w \<noteq> u) (workouts (snd (upsert_workout u d t n s)))
     = filter (\<lambda>w. user_id w \<noteq> u) (workouts s)"
    by (auto simp: upsert_workout_def issue_eq Let_def split: option.splits list.splits)
  show "workout_exercises (snd (upsert_workout u d t n s)) = workout_exercises s"
    "workout_sets (snd (upsert_workout u d t n s)) = workout_sets s"
    by (auto simp: upsert_workout_def issue_eq Let_def split: option.splits list.splits)
qed

lemma upsert_workout_member:
  assumes "upsert_workout u d t n s = (Inr w, s1)"
  shows "w \<in> set (workouts s1) \<and> user_id w = u"
proof (cases "filter (\<lambda>w. user_id w = u \<and> workout_date w = d) (workouts s)")
  case Nil
  with assms show ?thesis
    by (auto simp: upsert_workout_def issue_eq Let_def split: option.splits)
next
  case (Cons w0 ws)
  then have "w0 \<in> set (filter (\<lambda>w. user_id w = u \<and> workout_date w = d) (workouts s))" by simp
  then have "w0 \<in> set (workouts s)" "user_id w0 = u" "workout_date w0 = d" by simp_all
  with Cons assms show ?thesis
    by (force simp: upsert_workout_def issue_eq Let_def split: option.splits)
qed

lemma select_old_exercises_effect:
  "workouts (snd (select_old_exercises wid s)) = workouts s"
  "workout_exercises (snd (select_old_exercises wid s)) = workout_exercises s"
  "workout_sets (snd (select_old_exercises wid s)) = workout_sets s"
  "set (case fst (select_old_exercises wid s) of Inl _ \<Rightarrow> [] | Inr ids \<Rightarrow> ids)
     \<subseteq> e_id ` {e \<in> set (workout_exercises s). workout_id e = wid}"
  by (auto simp: select_old_exercises_def issue_eq split: option.splits)

lemma delete_sets_effect:
  "workouts (snd (delete_sets ids s)) = workouts s"
  "workout_exercises (snd (delete_sets ids s)) = workout_exercises s"
  "set ids \<subseteq> X \<Longrightarrow>
     filter (\<lambda>r. exercise_id r \<notin> X) (workout_sets (snd (delete_sets ids s)))
       = filter (\<lambda>r. exercise_id r \<notin> X) (workout_sets s)"
  by (auto simp: delete_sets_def issue_eq split: option.splits intro!: filter_cong)

lemma delete_exercises_effect:
  "workouts (snd (delete_exercises wid s)) = workouts s"
  "workout_sets (snd (delete_exercises wid s)) = workout_sets s"
  "wid \<in> W \<Longrightarrow>
     filter (\<lambda>e. workout_id e \<notin> W) (workout_exercises (snd (delete_exercises wid s)))
       = filter (\<lambda>e. workout_id e \<notin> W) (workout_exercises s)"
  by (auto simp: delete_exercises_def issue_eq split: option.splits intro!: filter_cong)

lemma workout_id_inserted:
  "e \<in> set (map mk_exercise (number_from n rows)) \<Longrightarrow> workout_id e \<in> fst ` set rows"
proof -
  have "map workout_id (map mk_exercise (number_from n rows)) = map fst rows"
    by (induction rows arbitrary: n) (auto simp: mk_exercise_def)
  moreover assume "e \<in> set (map mk_exercise (number_from n rows))"
  then have "workout_id e \<in> set (map workout_id (map mk_exercise (number_from n rows)))"
    by force
  ultimately show ?thesis by simp
qed

lemma filter_inserted_exercises:
  "fst ` set rows \<subseteq> W \<Longrightarrow>
   filter (\<lambda>e. workout_id e \<notin> W) (map mk_exercise (number_from n rows)) = []"
  unfolding filter_empty_conv by (blast dest: workout_id_inserted)

lemma filter_inserted_sets:
  "fst ` set rows \<subseteq> X \<Longrightarrow>
   filter (\<lambda>r. exercise_id r \<notin> X) (map mk_set (number_from n rows)) = []"
  unfolding filter_empty_conv by (blast dest: exercise_id_inserted_sets)

lemma insert_exercises_effect:
  "workouts (snd (insert_exercises rows s)) = workouts s"
  "workout_sets (snd (insert_exercises rows s)) = workout_sets s"
  "fst ` set rows \<subseteq> W \<Longrightarrow>
     filter (\<lambda>e. workout_id e \<notin> W) (workout_exercises (snd (insert_exercises rows s)))
       = filter (\<lambda>e. workout_id e \<notin> W) (workout_exercises s)"
  by (simp_all add: insert_exercises_eq filter_inserted_exercises split: option.splits)

lemma insert_exercises_result:
  assumes "insert_exercises rows s = (Inr ins, s5)"
  shows "set ins \<subseteq> set (workout_exercises s5)" "\<forall>e \<in> set ins. workout_id e \<in> fst ` set rows"
proof -
  from assms have ins: "ins = map mk_exercise (number_from (next_id s) rows)"
    and "workout_exercises s5 = workout_exercises s @ ins"
    by (auto simp: insert_exercises_eq split: option.splits)
  then show "set ins \<subseteq> set (workout_exercises s5)" by simp
  show "\<forall>e \<in> set ins. workout_id e \<in> fst ` set rows"
    unfolding ins by (blast dest: workout_id_inserted)
qed

lemma insert_sets_effect:
  "workouts (snd (insert_sets rows s)) = workouts s"
  "workout_exercises (snd (insert_sets rows s)) = workout_exercises s"
  "fst ` set rows \<subseteq> X \<Longrightarrow>
     filter (\<lambda>r. exercise_id r \<notin> X) (workout_sets (snd (insert_sets rows s)))
       = filter (\<lambda>r. exercise_id r \<notin> X) (workout_sets s)"
  by (simp_all add: insert_sets_eq filter_inserted_sets split: option.splits)

lemma exRows_from_wid: "exRows_from wid idx exs = Inr rows \<Longrightarrow> fst ` set rows \<subseteq> {wid}"
  by (drule exRows_from_Inr) auto

lemma postWorkouts_isolation:
  assumes post: "postWorkouts P uid body s = (resp, s')"
    and W: "\<And>w. w \<in> set (workouts s') \<Longrightarrow> user_id w = uid \<Longrightarrow> w_id w \<in> W"
    and X: "\<And>e. e \<in> set (workout_exercises s) \<union> set (workout_exercises s') \<Longrightarrow>
               workout_id e \<in> W \<Longrightarrow> e_id e \<in> X"
  shows "filter (\<lambda>w. user_id w \<noteq> uid) (workouts s') = filter (\<lambda>w. user_id w \<noteq> uid) (workouts s)
       \<and> filter (\<lambda>e. workout_id e \<notin> W) (workout_exercises s')
           = filter (\<lambda>e. workout_id e \<notin> W) (workout_exercises s)
       \<and> filter (\<lambda>r. exercise_id r \<notin> X) (workout_sets s')
           = filter (\<lambda>r. exercise_id r \<notin> X) (workout_sets s)"
proof (cases "\<exists>wd exs. get_prop body ''workout_date'' = Inr wd \<and> truthy wd
                \<and> get_prop_opt body ''exercises'' = Some (JArr exs)")
  case False
  then have "snd (postWorkouts P uid body s) = s"
    by (auto simp: postWorkouts_def split: sum.splits option.splits json.splits)
  with post show ?thesis by simp
next
  case True
  then obtain wd exs where d: "get_prop body ''workout_date'' = Inr wd" "truthy wd"
    and exs: "get_prop_opt body ''exercises'' = Some (JArr exs)" by blast
  let ?t = "nullish_or (get_prop_opt body ''title'') JNull"
  let ?n = "nullish_or (get_prop_opt body ''notes'') JNull"
  let ?up = "upsert_workout uid (the wd) ?t ?n s"
  obtain r1 s1 where up: "?up = (r1, s1)" by (cases ?up)
  have t1: "filter (\<lambda>w. user_id w \<noteq> uid) (workouts s1) = filter (\<lambda>w. user_id w \<noteq> uid) (workouts s)"
    "workout_exercises s1 = workout_exercises s" "workout_sets s1 = workout_sets s"
    using upsert_workout_effect [of uid "the wd" ?t ?n s] up by simp_all
  show ?thesis
  proof (cases r1)
    case (Inl m)
    then have "snd (postWorkouts P uid body s) = s1"
      using d exs up by (simp add: postWorkouts_def)
    with post t1 show ?thesis by simp
  next
    case (Inr w)
    let ?s2 = "snd (select_old_exercises (w_id w) s1)"
    let ?oldIds = "case fst (select_old_exercises (w_id w) s1) of Inl _ \<Rightarrow> [] | Inr ids \<Rightarrow> ids"
    let ?s3 = "if ?oldIds \<noteq> [] then snd (delete_sets ?oldIds ?s2) else ?s2"
    define s4 where "s4 = snd (delete_exercises (w_id w) ?s3)"
    have post': "postWorkouts P uid body s =
       (case exRows_from (w_id w) 0 exs of
            Inl err \<Rightarrow> (Threw err, s4)
          | Inr exRows \<Rightarrow>
              (case insert_exercises exRows s4 of
                 (Inl m, s5) \<Rightarrow> (Reject 500 m None, s5)
               | (Inr insertedEx, s5) \<Rightarrow>
                   (case setRows_of P exs insertedEx of
                      Inl err \<Rightarrow> (Threw err, s5)
                    | Inr setRows \<Rightarrow>
                        if setRows \<noteq> []
                        then (case insert_sets setRows s5 of
                                (Inl m, s6) \<Rightarrow> (Reject 500 m None, s6)
                              | (Inr _, s6) \<Rightarrow> (SendOk (w_id w), s6))
                        else (SendOk (w_id w), s5))))"
      using d exs up Inr
      unfolding s4_def by (simp add: postWorkouts_def Let_def case_prod_unfold split del: if_split)
    have mem: "w \<in> set (workouts s1)" "user_id w = uid"
      using upsert_workout_member [of uid "the wd" ?t ?n s w s1] up Inr by simp_all
    have w4: "workouts s4 = workouts s1"
      by (simp add: s4_def delete_exercises_effect delete_sets_effect select_old_exercises_effect)
    have old: "set ?oldIds \<subseteq> e_id ` {e \<in> set (workout_exercises s). workout_id e = w_id w}"
      using select_old_exercises_effect(4) [of "w_id w" s1] t1 by simp
    { assume ws': "workouts s' = workouts s1"
      have wid: "w_id w \<in> W" using W [of w] mem ws' by simp
      have oldX: "set ?oldIds \<subseteq> X" using old X wid by auto
      have S3: "filter (\<lambda>r. exercise_id r \<notin> X) (workout_sets ?s3)
                 = filter (\<lambda>r. exercise_id r \<notin> X) (workout_sets s)"
        using oldX t1 by (simp add: delete_sets_effect select_old_exercises_effect)
      have E3: "workout_exercises ?s3 = workout_exercises s"
        using t1 by (simp add: delete_sets_effect select_old_exercises_effect)
      have S4: "filter (\<lambda>r. exercise_id r \<notin> X) (workout_sets s4)
                 = filter (\<lambda>r. exercise_id r \<notin> X) (workout_sets s)"
        using S3 by (simp add: s4_def delete_exercises_effect)
      have E4: "filter (\<lambda>e. workout_id e \<notin> W) (workout_exercises s4)
                 = filter (\<lambda>e. workout_id e \<notin> W) (workout_exercises s)"
        unfolding s4_def using delete_exercises_effect(3) [OF wid, of ?s3] E3 by simp
      note wid S4 E4 }
    note stage4 = this
    show ?thesis
    proof (cases "exRows_from (w_id w) 0 exs")
      case (Inl err)
      then have s': "s' = s4" using post by (simp add: post')
      then have "workouts s' = workouts s1" using w4 by simp
      from stage4 [OF this] t1 w4 s' show ?thesis by simp
    next
      case exRows: (Inr exRows)
      obtain r5 s5 where ins: "insert_exercises exRows s4 = (r5, s5)"
        by (cases "insert_exercises exRows s4")
      have w5: "workouts s5 = workouts s1" "workout_sets s5 = workout_sets s4"
        using insert_exercises_effect(1,2) [of exRows s4] ins w4 by simp_all
      have rows_wid: "fst ` set exRows \<subseteq> {w_id w}" using exRows by (rule exRows_from_wid)
      { assume ws': "workouts s' = workouts s1"
        note st = stage4 [OF ws']
        have "fst ` set exRows \<subseteq> W" using rows_wid st(1) by auto
        then have "filter (\<lambda>e. workout_id e \<notin> W) (workout_exercises s5)
                 = filter (\<lambda>e. workout_id e \<notin> W) (workout_exercises s4)"
          using insert_exercises_effect(3) [of exRows W s4] ins by simp
        with st have "filter (\<lambda>e. workout_id e \<notin> W) (workout_exercises s5)
                 = filter (\<lambda>e. workout_id e \<notin> W) (workout_exercises s)"
          "filter (\<lambda>r. exercise_id r \<notin> X) (workout_sets s5)
                 = filter (\<lambda>r. exercise_id r \<notin> X) (workout_sets s)"
          using w5 by simp_all }
      note stage5 = this
      show ?thesis
      proof (cases r5)
        case (Inl m)
        then have s': "s' = s5" using post exRows ins by (simp add: post')
        then have "workouts s' = workouts s1" using w5 by simp
        from stage5 [OF this] t1 w5 s' show ?thesis by simp
      next
        case insertedEx: (Inr insertedEx)
        show ?thesis
        proof (cases "setRows_of P exs insertedEx")
          case (Inl err)
          then have s': "s' = s5" using post exRows ins insertedEx by (simp add: post')
          then have "workouts s' = workouts s1" using w5 by simp
          from stage5 [OF this] t1 w5 s' show ?thesis by simp
        next
          case setRows: (Inr setRows)
          let ?s6 = "snd (insert_sets setRows s5)"
          have s': "s' = s5 \<or> s' = ?s6"
            using post exRows ins insertedEx setRows
            by (auto simp: post' split: if_splits prod.splits sum.splits)
          have t6: "workouts ?s6 = workouts s5" "workout_exercises ?s6 = workout_exercises s5"
            by (simp_all add: insert_sets_effect)
          have ws': "workouts s' = workouts s1" using s' w5 t6 by auto
          note st = stage4 [OF ws'] stage5 [OF ws']
          have E': "workout_exercises s' = workout_exercises s5" using s' t6 by auto
          have "fst ` set setRows \<subseteq> X"
          proof -
            have "e_id e \<in> X" if "e \<in> set insertedEx" for e
            proof -
              from insert_exercises_result [of exRows s4 insertedEx s5] ins insertedEx that
              have "e \<in> set (workout_exercises s5)" "workout_id e \<in> fst ` set exRows" by auto
              with rows_wid st(1) E' show ?thesis using X [of e] by auto
            qed
            with setRows_of_ids [OF setRows] show ?thesis by auto
          qed
          then have "filter (\<lambda>r. exercise_id r \<notin> X) (workout_sets ?s6)
                 = filter (\<lambda>r. exercise_id r \<notin> X) (workout_sets s5)"
            by (simp add: insert_sets_effect)
          with st s' t1 w5 t6 show ?thesis by auto
        qed
      qed
    qed
  qed
qed

lemma filter_singletonD: "filter Q xs = [w] \<Longrightarrow> w \<in> set xs \<and> Q w"
proof -
  assume "filter Q xs = [w]"
  then have "w \<in> set (filter Q xs)" by simp
  then show ?thesis by simp
qed

lemma getWorkouts_reads_own:
  assumes "getWorkouts uid date s = (resp, s')"
  shows "workouts s' = workouts s \<and> workout_exercises s' = workout_exercises s
       \<and> workout_sets s' = workout_sets s
       \<and> (\<forall>w exs. resp = SendWorkout w exs \<longrightarrow>
             w \<in> set (workouts s) \<and> user_id w = uid
             \<and> (\<forall>(e, rows) \<in> set exs.
                   e \<in> set (workout_exercises s) \<and> workout_id e = w_id w
                   \<and> (\<forall>r \<in> set rows. r \<in> set (workout_sets s) \<and> exercise_id r = e_id e)))"
  using assms
  by (auto simp: getWorkouts_def select_workout_def select_exercises_def select_sets_def
        issue_eq Let_def group_sets_lookup
        split: option.splits list.splits if_splits dest: filter_singletonD)

text \<open>
  Claim C9. A request the gate rejects changes nothing. For a request it lets through with
  the id \<open>uid\<close>, the replace route leaves as they were every workout row of another user,
  every exercise row whose \<^verbatim>\<open>workout_id\<close> is not the id of a workout of \<open>uid\<close>, and every set
  row whose \<^verbatim>\<open>exercise_id\<close> is not the id of an exercise of such a workout; this holds
  whichever statements fail. The read route changes no row, and what it sends is a workout
  row of \<open>uid\<close>, exercise rows of that workout and, under each, set rows of that exercise.
\<close>

theorem tenant_isolation:
  assumes "route_post_workouts P now botToken req s = (resp, s')"
    and "route_get_workouts P now botToken req s = (resp_r, s_r)"
  shows "(\<forall>r. requireUser P now botToken (initdata_header req) = Inl r
            \<longrightarrow> s' = s \<and> s_r = s \<and> resp = r \<and> resp_r = r)
       \<and> (\<forall>uid. requireUser P now botToken (initdata_header req) = Inr uid \<longrightarrow>
            (let W = own_workout_ids s' uid;
                 X = exercise_ids_of W s s'
             in filter (\<lambda>w. user_id w \<noteq> uid) (workouts s')
                  = filter (\<lambda>w. user_id w \<noteq> uid) (workouts s)
                \<and> filter (\<lambda>e. workout_id e \<notin> W) (workout_exercises s')
                  = filter (\<lambda>e. workout_id e \<notin> W) (workout_exercises s)
                \<and> filter (\<lambda>r. exercise_id r \<notin> X) (workout_sets s')
                  = filter (\<lambda>r. exercise_id r \<notin> X) (workout_sets s))
            \<and> workouts s_r = workouts s \<and> workout_exercises s_r = workout_exercises s
            \<and> workout_sets s_r = workout_sets s
            \<and> (\<forall>w exs. resp_r = SendWorkout w exs \<longrightarrow>
                  w \<in> set (workouts s) \<and> user_id w = uid
                  \<and> (\<forall>(e, rows) \<in> set exs.
                        e \<in> set (workout_exercises s) \<and> workout_id e = w_id w
                        \<and> (\<forall>r \<in> set rows.
                              r \<in> set (workout_sets s) \<and> exercise_id r = e_id e))))"
proof (rule conjI)
  show "\<forall>r. requireUser P now botToken (initdata_header req) = Inl r
            \<longrightarrow> s' = s \<and> s_r = s \<and> resp = r \<and> resp_r = r"
    using assms by (auto simp: route_post_workouts_def route_get_workouts_def)
next
  show "\<forall>uid. requireUser P now botToken (initdata_header req) = Inr uid \<longrightarrow>
            (let W = own_workout_ids s' uid;
                 X = exercise_ids_of W s s'
             in filter (\<lambda>w. user_id w \<noteq> uid) (workouts s')
                  = filter (\<lambda>w. user_id w \<noteq> uid) (workouts s)
                \<and> filter (\<lambda>e. workout_id e \<notin> W) (workout_exercises s')
                  = filter (\<lambda>e. workout_id e \<notin> W) (workout_exercises s)
                \<and> filter (\<lambda>r. exercise_id r \<notin> X) (workout_sets s')
                  = filter (\<lambda>r. exercise_id r \<notin> X) (workout_sets s))
            \<and> workouts s_r = workouts s \<and> workout_exercises s_r = workout_exercises s
            \<and> workout_sets s_r = workout_sets s
            \<and> (\<forall>w exs. resp_r = SendWorkout w exs \<longrightarrow>
                  w \<in> set (workouts s) \<and> user_id w = uid
                  \<and> (\<forall>(e, rows) \<in> set exs.
                        e \<in> set (workout_exercises s) \<and> workout_id e = w_id w
                        \<and> (\<forall>r \<in> set rows.
                              r \<in> set (workout_sets s) \<and> exercise_id r = e_id e)))"
  proof (intro allI impI)
    fix uid assume u: "requireUser P now botToken (initdata_header req) = Inr uid"
    with assms have post: "postWorkouts P uid (req_body req) s = (resp, s')"
      and get: "getWorkouts uid (query_date req) s = (resp_r, s_r)"
      by (simp_all add: route_post_workouts_def route_get_workouts_def)
    let ?W = "own_workout_ids s' uid"
    let ?X = "exercise_ids_of ?W s s'"
    have iso: "filter (\<lambda>w. user_id w \<noteq> uid) (workouts s')
           = filter (\<lambda>w. user_id w \<noteq> uid) (workouts s)
         \<and> filter (\<lambda>e. workout_id e \<notin> ?W) (workout_exercises s')
             = filter (\<lambda>e. workout_id e \<notin> ?W) (workout_exercises s)
         \<and> filter (\<lambda>r. exercise_id r \<notin> ?X) (workout_sets s')
             = filter (\<lambda>r. exercise_id r \<notin> ?X) (workout_sets s)"
      by (rule postWorkouts_isolation [OF post]) (auto simp: own_workout_ids_def exercise_ids_of_def)
    from iso getWorkouts_reads_own [OF get]
    show "(let W = own_workout_ids s' uid;
                 X = exercise_ids_of W s s'
             in filter (\<lambda>w. user_id w \<noteq> uid) (workouts s')
                  = filter (\<lambda>w. user_id w \<noteq> uid) (workouts s)
                \<and> filter (\<lambda>e. workout_id e \<notin> W) (workout_exercises s')
                  = filter (\<lambda>e. workout_id e \<notin> W) (workout_exercises s)
                \<and> filter (\<lambda>r. exercise_id r \<notin> X) (workout_sets s')
                  = filter (\<lambda>r. exercise_id r \<notin> X) (workout_sets s))
            \<and> workouts s_r = workouts s \<and> workout_exercises s_r = workout_exercises s
            \<and> workout_sets s_r = workout_sets s
            \<and> (\<forall>w exs. resp_r = SendWorkout w exs \<longrightarrow>
                  w \<in> set (workouts s) \<and> user_id w = uid
                  \<and> (\<forall>(e, rows) \<in> set exs.
                        e \<in> set (workout_exercises s) \<and> workout_id e = w_id w
                        \<and> (\<forall>r \<in> set rows.
                              r \<in> set (workout_sets s) \<and> exercise_id r = e_id e)))"
      unfolding Let_def by (elim conjE, intro conjI) assumption+
  qed
qed

lemma example_route_post:
  "route_post_workouts example_platform 1000 (Some ''tok'') example_request example_shared_store =
     (SendOk 1,
      \<lparr>workouts = [\<lparr>w_id = 1, user_id = JNum (Num 42), workout_date = JStr ''2024-01-01'',
                    title = JNull, w_notes = JNull\<rparr>,
                  \<lparr>w_id = 4, user_id = JNum (Num 7), workout_date = JStr ''2024-01-01'',
                    title = JNull, w_notes = JNull\<rparr>],
       workout_exercises = [\<lparr>e_id = 5, workout_id = 4, name = Some (JStr ''Row''), position = 1\<rparr>,
                            \<lparr>e_id = 7, workout_id = 1, name = Some (JStr ''Squat''), position = 1\<rparr>],
       workout_sets = [\<lparr>s_id = 6, exercise_id = 5, set_no = 1, reps = Some 8, weight_kg = Some 60\<rparr>,
                       \<lparr>s_id = 8, exercise_id = 7, set_no = 1, reps = Some 3, weight_kg = Some 140\<rparr>],
       next_id = 9, faults = [],
       journal = [Upsert_workout, Select_old_exercises, Delete_sets, Delete_exercises,
                  Insert_exercises, Insert_sets]\<rparr>)"
  by (simp add: route_post_workouts_def example_request_def example_gate)
     (simp add: store_eval example_shared_store_def example_body_def)

lemma example_route_get:
  "fst (route_get_workouts example_platform 1000 (Some ''tok'') example_request example_shared_store) =
     SendWorkout \<lparr>w_id = 1, user_id = JNum (Num 42), workout_date = JStr ''2024-01-01'',
                  title = JNull, w_notes = JNull\<rparr>
       [(\<lparr>e_id = 2, workout_id = 1, name = Some (JStr ''Bench''), position = 1\<rparr>,
         [\<lparr>s_id = 3, exercise_id = 2, set_no = 1, reps = Some 5, weight_kg = Some 100\<rparr>])]"
  by (simp add: route_get_workouts_def example_request_def example_gate)
     (simp add: getWorkouts_def select_workout_def select_exercises_def select_sets_def
        issue_def group_sets_def Let_def example_shared_store_def)

text \<open>
  Witness for C9: user 42 replaces and reads their workout in a store shared with user 7;
  the workout, the exercise and the set of user 7 are as before.
\<close>

theorem tenant_isolation_witness:
  "requireUser example_platform 1000 (Some ''tok'') (initdata_header example_request)
     = Inr (JNum (Num 42))
   \<and> filter (\<lambda>w. user_id w \<noteq> JNum (Num 42))
        (workouts (snd (route_post_workouts example_platform 1000 (Some ''tok'')
                          example_request example_shared_store)))
       = [\<lparr>w_id = 4, user_id = JNum (Num 7), workout_date = JStr ''2024-01-01'',
            title = JNull, w_notes = JNull\<rparr>]
   \<and> filter (\<lambda>e. workout_id e \<notin> {1})
        (workout_exercises (snd (route_post_workouts example_platform 1000 (Some ''tok'')
                                   example_request example_shared_store)))
       = [\<lparr>e_id = 5, workout_id = 4, name = Some (JStr ''Row''), position = 1\<rparr>]
   \<and> filter (\<lambda>r. exercise_id r \<notin> {2, 7})
        (workout_sets (snd (route_post_workouts example_platform 1000 (Some ''tok'')
                              example_request example_shared_store)))
       = [\<lparr>s_id = 6, exercise_id = 5, set_no = 1, reps = Some 8, weight_kg = Some 60\<rparr>]
   \<and> fst (route_get_workouts example_platform 1000 (Some ''tok'') example_request
             example_shared_store)
       = SendWorkout \<lparr>w_id = 1, user_id = JNum (Num 42), workout_date = JStr ''2024-01-01'',
                      title = JNull, w_notes = JNull\<rparr>
           [(\<lparr>e_id = 2, workout_id = 1, name = Some (JStr ''Bench''), position = 1\<rparr>,
             [\<lparr>s_id = 3, exercise_id = 2, set_no = 1, reps = Some 5, weight_kg = Some 100\<rparr>])]"
proof -
  let ?post = "route_post_workouts example_platform 1000 (Some ''tok'') example_request
                 example_shared_store"
  let ?get = "route_get_workouts example_platform 1000 (Some ''tok'') example_request
                example_shared_store"
  have gate: "requireUser example_platform 1000 (Some ''tok'') (initdata_header example_request)
     = Inr (JNum (Num 42))"
    by (simp add: example_request_def example_gate)
  have p: "?post = (fst ?post, snd ?post)" and g: "?get = (fst ?get, snd ?get)" by simp_all
  have W: "own_workout_ids (snd ?post) (JNum (Num 42)) = {1}"
    unfolding example_route_post snd_conv by (simp add: own_workout_ids_def)
  have X: "exercise_ids_of {1} example_shared_store (snd ?post) = {2, 7}"
    unfolding example_route_post snd_conv
    by (auto simp: example_shared_store_def exercise_ids_of_def)
  note iso = tenant_isolation [OF p g, THEN conjunct2, THEN spec, THEN mp, OF gate]
  from iso [THEN conjunct1, unfolded Let_def W X]
  have "filter (\<lambda>w. user_id w \<noteq> JNum (Num 42)) (workouts (snd ?post))
          = filter (\<lambda>w. user_id w \<noteq> JNum (Num 42)) (workouts example_shared_store)"
    and "filter (\<lambda>e. workout_id e \<notin> {1}) (workout_exercises (snd ?post))
          = filter (\<lambda>e. workout_id e \<notin> {1}) (workout_exercises example_shared_store)"
    and "filter (\<lambda>r. exercise_id r \<notin> {2, 7}) (workout_sets (snd ?post))
          = filter (\<lambda>r. exercise_id r \<notin> {2, 7}) (workout_sets example_shared_store)"
    by simp_all
  then show ?thesis using gate example_route_get by (simp add: example_shared_store_def)
qed

end
